theory Spec2Isabelle
  imports Complex_Main "HOL-Library.Multiset" "HOL-Library.AList"
begin

section \<open>Data model\<close>

text \<open>
  One item of a search page, as \<open>GitHubRepoFetcher\<close> reads it. Only the keys the fetcher
  looks at are kept. \<open>description\<close>, \<open>license\<close> and \<open>language\<close> are \<open>None\<close> when the key is
  missing or \<open>null\<close>; \<open>license\<close> otherwise holds the name of the (non-empty) license object.
  The four counters are the values of \<open>repo.get(key, 0)\<close>, and \<open>repo_topics\<close> that of
  \<open>repo.get('topics', [])\<close>. The details endpoint answers with a dict of the same keys.
  The name and the description, which the validator reads character by character, are
  sequences of code points; the other strings are only copied and compared.
\<close>

type_synonym str = "nat list"

record repo =
  name :: str
  description :: "str option"
  full_name :: string
  license :: "string option"
  stargazers_count :: int
  forks_count :: int
  watchers_count :: int
  open_issues_count :: int
  language :: "string option"
  repo_topics :: "string list"

text \<open>
  One value of \<open>self.all_repos\<close>. A key of the Python dict that may be absent is an
  \<open>option\<close>: \<open>None\<close> is "no such key".
\<close>

record entry =
  source :: "string list"
  is_gsoc :: "bool option"
  is_hacktoberfest :: "bool option"
  has_good_first_issues :: "bool option"
  is_underrated :: "bool option"
  topics :: "string list option"
  languages :: "string list option"
  raw_data :: repo

text \<open>
  A Python \<open>dict\<close> with string keys keeps its keys in insertion order: it is an association
  list with distinct keys, read with \<open>map_of\<close> and written with \<open>AList.update\<close> (which
  replaces the value in place, or appends a new key at the end).
\<close>

type_synonym 'v dict = "(string \<times> 'v) list"

text \<open>\<open>self.progress_state\<close>, the content of \<open>fetcher_state.json\<close>.\<close>

record progress_state =
  phase :: string
  completed_tasks :: "string list"
  enrichment_progress :: nat
  enriched_repos :: "string list"
  filtered_count :: int

text \<open>The fields of a \<open>GitHubRepoFetcher\<close> object that the fetcher reads and writes.\<close>

record fetcher =
  all_repos :: "entry dict"
  rate_limit_remaining :: int
  progress_state :: progress_state

text \<open>
  A file on disk: absent, holding a value that \<open>json.load\<close> reads back, or left
  unreadable by a write that failed after the file was opened (and truncated).
\<close>

datatype 'a disk_file = Absent | Stored 'a | Garbled

text \<open>What \<open>save_current_data\<close> writes to \<open>github_repos_raw.json\<close>.\<close>

record raw_output =
  meta_total_repos :: nat
  meta_completed_tasks :: "string list"
  meta_filtered_count :: int
  repositories :: "entry dict"

text \<open>
  One element of \<open>repositories\<close> in \<open>github_repos_enriched.json\<close>, as
  \<open>format_repo_for_output\<close> builds it. The keys that are plain copies of payload keys
  outside the \<open>repo\<close> record (\<open>id\<close>, \<open>owner\<close>, \<open>url\<close>, \<open>homepage\<close>, the dates, \<open>has_issues\<close>,
  \<open>has_wiki\<close>, \<open>default_branch\<close>) are left out.
\<close>

record formatted_repo =
  out_name :: str
  out_full_name :: string
  out_description :: "str option"
  out_language :: "string option"
  out_topics :: "string list"
  out_stars :: int
  out_forks :: int
  out_open_issues :: int
  out_license :: "string option"
  out_readme :: string
  out_languages :: "string list"
  out_is_gsoc :: bool
  out_is_hacktoberfest :: bool
  out_is_underrated :: bool
  out_has_good_first_issues :: bool
  out_sources :: "string list"

text \<open>What \<open>_save_enriched_data\<close> writes to \<open>github_repos_enriched.json\<close>.\<close>

record enriched_output =
  enriched_total_repos :: nat
  enriched_completed_tasks :: "string list"
  enriched_filtered_count :: int
  enriched_repositories :: "formatted_repo list"

text \<open>
  The HTTP requests the fetcher issues, in the order they are handed to the network:
  the quota endpoint, one page of a search (query and page number), one endpoint of a
  repository (endpoint name and repository).
\<close>

datatype request =
  RateLimitRequest
  | SearchRequest string nat
  | EndpointRequest string string

text \<open>
  The fetcher together with what it acts on: the state file, the data file of the
  collection phase, the output file of the enrichment phase, and the trace of the requests
  sent.
\<close>

record world = fetcher +
  state_file :: "progress_state disk_file"
  raw_file :: "raw_output disk_file"
  enriched_file :: "enriched_output disk_file"
  requests_sent :: "request list"

section \<open>Quota gate\<close>

text \<open>
  What the \<open>/rate_limit\<close> endpoint can answer: a response with its status code and its body
  (read only when the status is 200), or an exception raised by the request. Of the body
  the fetcher reads \<open>data['resources']['core']['remaining']\<close>, which it stores, and then
  \<open>datetime.fromtimestamp(data['resources']['core']['reset'])\<close>. A body is \<open>Counted\<close> when
  both go well, \<open>CountedOnly\<close> when the count is read and the second expression raises (no
  key \<open>reset\<close>, or a value that \<open>fromtimestamp\<close> refuses), and \<open>Unreadable\<close> when the first
  one raises (no JSON, or a key missing). The count is an integer.
\<close>

datatype rate_limit_body = Counted int | CountedOnly int | Unreadable

datatype rate_limit_response =
  RateLimitResponse nat rate_limit_body
  | RateLimitException

text \<open>
  \<open>check_rate_limit\<close> returns \<open>False\<close> or a number. Every exception of its body is caught by
  its \<open>except Exception\<close>, which returns the cached count: the one just stored when the
  exception came after the assignment.
\<close>

datatype check_result = CheckFalse | CheckCount int

definition check_rate_limit :: "rate_limit_response \<Rightarrow> world \<Rightarrow> check_result \<times> world" where
  "check_rate_limit response s =
     (let s1 = s\<lparr>requests_sent := requests_sent s @ [RateLimitRequest]\<rparr> in
      case response of
        RateLimitException \<Rightarrow> (CheckCount (rate_limit_remaining s1), s1)
      | RateLimitResponse status body \<Rightarrow>
          if status = 200 then
            (case body of
               Unreadable \<Rightarrow> (CheckCount (rate_limit_remaining s1), s1)
             | CountedOnly remaining \<Rightarrow>
                 (let s2 = s1\<lparr>rate_limit_remaining := remaining\<rparr>
                  in (CheckCount (rate_limit_remaining s2), s2))
             | Counted remaining \<Rightarrow>
                 (let s2 = s1\<lparr>rate_limit_remaining := remaining\<rparr> in
                  if rate_limit_remaining s2 < 5 then (CheckFalse, s2)
                  else (CheckCount (rate_limit_remaining s2), s2)))
          else (CheckCount 0, s1))"

text \<open>
  The body of \<open>wait_for_rate_limit\<close>, given the value \<open>cached\<close> that its read of
  \<open>self.rate_limit_remaining\<close> yields. \<open>result is False\<close> is false of every number.
\<close>

definition rate_limit_gate :: "int \<Rightarrow> rate_limit_response \<Rightarrow> world \<Rightarrow> bool \<times> world" where
  "rate_limit_gate cached response s =
     (if cached < 10 then
        (case check_rate_limit response s of
           (result, s') \<Rightarrow> if result = CheckFalse then (False, s') else (True, s'))
      else (True, s))"

text \<open>Called where no other thread runs, it reads the count that the fetcher holds.\<close>

definition wait_for_rate_limit :: "rate_limit_response \<Rightarrow> world \<Rightarrow> bool \<times> world" where
  "wait_for_rate_limit response s = rate_limit_gate (rate_limit_remaining s) response s"

section \<open>Per-item validation\<close>

subsection \<open>Characters\<close>

text \<open>
  The methods \<open>lower\<close> and \<open>strip\<close> of a \<open>str\<close> and the module \<open>re\<close> consult the Unicode
  database of the interpreter. It is no part of the repository, and a parameter here:
  \<open>is_alnum c\<close> is \<open>str.isalnum\<close> of the character \<open>c\<close> (the class \<open>\w\<close> is these characters
  and the underscore); \<open>is_space c\<close> is \<open>str.isspace\<close> of \<open>c\<close> (the class \<open>\s\<close>, and what
  \<open>strip()\<close> removes); \<open>lower s\<close> is \<open>s.lower()\<close>; and \<open>same_letter c t\<close> says that under
  \<open>re.IGNORECASE\<close> the literal \<open>c\<close> of a pattern matches the character \<open>t\<close> of the text.
\<close>

record unicode =
  is_alnum :: "nat \<Rightarrow> bool"
  is_space :: "nat \<Rightarrow> bool"
  lower :: "str \<Rightarrow> str"
  same_letter :: "nat \<Rightarrow> nat \<Rightarrow> bool"

text \<open>A string literal of the source, which is ASCII, as a \<open>str\<close>.\<close>

definition codes :: "string \<Rightarrow> str" where
  "codes s = map of_char s"

subsection \<open>Regular expressions\<close>

text \<open>
  The fragment of Python's \<open>re\<close> syntax that the three pattern lists use:
  \<open>\b\<close>, \<open>^\<close>, a literal character, \<open>[\s-]\<close>, \<open>[\s-]?\<close> and \<open>.*\<close>. The class \<open>[\s-]\<close> holds
  no letter, so \<open>re.IGNORECASE\<close> leaves it as it is; \<open>.\<close> is every character but the
  newline.
\<close>

datatype atom = WordB | Bol | Chr nat | SpaceDash | OptSpaceDash | AnyStar

type_synonym pattern = "atom list"

definition is_word_char :: "unicode \<Rightarrow> nat \<Rightarrow> bool" where
  "is_word_char U c = (is_alnum U c \<or> c = 95)"

definition at_boundary :: "unicode \<Rightarrow> nat option \<Rightarrow> str \<Rightarrow> bool" where
  "at_boundary U prev text =
     ((case prev of None \<Rightarrow> False | Some c \<Rightarrow> is_word_char U c)
       \<noteq> (case text of [] \<Rightarrow> False | t # ts \<Rightarrow> is_word_char U t))"

definition space_or_dash :: "unicode \<Rightarrow> nat \<Rightarrow> bool" where
  "space_or_dash U c = (is_space U c \<or> c = 45)"

text \<open>
  \<open>match_here U p prev text\<close>: the pattern matches a prefix of \<open>text\<close>, where \<open>prev\<close> is the
  character before it (\<open>None\<close> at the start of the string).
\<close>

fun match_here :: "unicode \<Rightarrow> pattern \<Rightarrow> nat option \<Rightarrow> str \<Rightarrow> bool" where
  "match_here U [] prev text = True"
| "match_here U (WordB # ps) prev text = (at_boundary U prev text \<and> match_here U ps prev text)"
| "match_here U (Bol # ps) prev text = (prev = None \<and> match_here U ps prev text)"
| "match_here U (Chr c # ps) prev [] = False"
| "match_here U (Chr c # ps) prev (t # ts) = (same_letter U c t \<and> match_here U ps (Some t) ts)"
| "match_here U (SpaceDash # ps) prev [] = False"
| "match_here U (SpaceDash # ps) prev (t # ts) =
     (space_or_dash U t \<and> match_here U ps (Some t) ts)"
| "match_here U (OptSpaceDash # ps) prev [] = match_here U ps prev []"
| "match_here U (OptSpaceDash # ps) prev (t # ts) =
     ((space_or_dash U t \<and> match_here U ps (Some t) ts) \<or> match_here U ps prev (t # ts))"
| "match_here U (AnyStar # ps) prev [] = match_here U ps prev []"
| "match_here U (AnyStar # ps) prev (t # ts) =
     (match_here U ps prev (t # ts)
      \<or> (t \<noteq> 10 \<and> match_here U (AnyStar # ps) (Some t) ts))"

fun search_from :: "unicode \<Rightarrow> pattern \<Rightarrow> nat option \<Rightarrow> str \<Rightarrow> bool" where
  "search_from U p prev [] = match_here U p prev []"
| "search_from U p prev (t # ts) = (match_here U p prev (t # ts) \<or> search_from U p (Some t) ts)"

definition re_search :: "unicode \<Rightarrow> pattern \<Rightarrow> str \<Rightarrow> bool" where
  "re_search U p text = search_from U p None text"

definition lit :: "string \<Rightarrow> pattern" where
  "lit w = map Chr (codes w)"

definition word :: "string \<Rightarrow> pattern" where
  "word w = WordB # lit w @ [WordB]"

definition tutorial_patterns :: "pattern list" where
  "tutorial_patterns =
     [word ''tutorial'', word ''example'', word ''demo'', word ''sample'',
      word ''boilerplate'', word ''template'', word ''starter'',
      word ''learning'', word ''course'', word ''workshop'',
      word ''practice'', word ''exercise'']"

definition portfolio_patterns :: "pattern list" where
  "portfolio_patterns =
     [word ''portfolio'', word ''resume'', word ''cv'',
      WordB # lit ''personal'' @ OptSpaceDash # lit ''site'' @ [WordB],
      WordB # lit ''my'' @ OptSpaceDash # lit ''website'' @ [WordB],
      word ''profile'']"

definition awesome_patterns :: "pattern list" where
  "awesome_patterns =
     [Bol # lit ''awesome'' @ [SpaceDash],
      WordB # lit ''awesome'' @ SpaceDash # lit ''list'' @ [WordB],
      WordB # lit ''curated'' @ SpaceDash # lit ''list'' @ [WordB],
      word ''resources'' @ AnyStar # word ''list'',
      word ''collection'']"

subsection \<open>String helpers of Python\<close>

definition strip :: "unicode \<Rightarrow> str \<Rightarrow> str" where
  "strip U text = rev (dropWhile (is_space U) (rev (dropWhile (is_space U) text)))"

fun digits :: "nat \<Rightarrow> string" where
  "digits n =
     (if n < 10 then [char_of (48 + n)]
      else digits (n div 10) @ [char_of (48 + n mod 10)])"

declare digits.simps [simp del]

definition str_int :: "int \<Rightarrow> string" where
  "str_int i = (if i < 0 then CHR ''-'' # digits (nat (- i)) else digits (nat i))"

subsection \<open>The validator\<close>

definition min_stars :: int where
  "min_stars = 10"

definition min_forks :: int where
  "min_forks = 3"


text \<open>
  \<open>forks / stars > self.max_fork_star_ratio\<close> for \<open>stars > 0\<close>. The quotient of two \<open>int\<close>s is
  the float nearest to their exact quotient, the one with an even mantissa when two are
  equally near, and the division raises \<open>OverflowError\<close> when that float would lie beyond
  the largest one. The float after \<open>2.0\<close> is \<open>2 + 1 / 2 ^ 51\<close>, so the quotient is above
  \<open>2.0\<close> as a float exactly when it is above \<open>2 + 1 / 2 ^ 52\<close> as a number; the largest
  float is \<open>2 ^ 1024 - 2 ^ 971\<close>, so the division overflows from \<open>2 ^ 1024 - 2 ^ 970\<close> on.
\<close>

datatype float_error = OverflowError

definition error_message :: "float_error \<Rightarrow> string" where
  "error_message raised = ''integer division result too large for a float''"

definition exceeds_max_fork_star_ratio :: "int \<Rightarrow> int \<Rightarrow> float_error + bool" where
  "exceeds_max_fork_star_ratio forks stars =
     (if \<bar>forks\<bar> \<ge> (2 ^ 1024 - 2 ^ 970) * stars then Inl OverflowError
      else Inr (forks * 2 ^ 52 > (2 ^ 53 + 1) * stars))"

definition matches_pattern :: "unicode \<Rightarrow> str \<Rightarrow> pattern list \<Rightarrow> bool" where
  "matches_pattern U text patterns =
     (if text = [] then False
      else list_ex (\<lambda>p. re_search U p (lower U text)) patterns)"

text \<open>\<open>repo.get('description', '') or ''\<close>\<close>

definition description_text :: "repo \<Rightarrow> str" where
  "description_text r = (case description r of None \<Rightarrow> [] | Some d \<Rightarrow> d)"

text \<open>
  \<open>is_legitimate_project\<close> returns its pair, or raises what the division raises; the test
  \<open>stars > 0\<close> comes first, so a repository without stars is not divided by.
\<close>

definition is_legitimate_project :: "unicode \<Rightarrow> repo \<Rightarrow> float_error + bool \<times> string option" where
  "is_legitimate_project U r =
     (let description' = description_text r in
      if license r = None then Inr (False, Some ''No license'')
      else if description' = [] \<or> length (strip U description') < 20
        then Inr (False, Some ''No meaningful description'')
      else
        let combined_text = name r @ codes '' '' @ description' in
        if matches_pattern U combined_text tutorial_patterns
          then Inr (False, Some ''Tutorial/demo/example project'')
        else if matches_pattern U combined_text portfolio_patterns
          then Inr (False, Some ''Portfolio/personal project'')
        else if matches_pattern U combined_text awesome_patterns
          then Inr (False, Some ''Curated list/awesome collection'')
        else
          let stars = stargazers_count r; forks = forks_count r;
              watchers = watchers_count r; open_issues = open_issues_count r in
          case (if stars > 0 then exceeds_max_fork_star_ratio forks stars else Inr False) of
            Inl raised \<Rightarrow> Inl raised
          | Inr too_many_forks \<Rightarrow>
              if too_many_forks
                then Inr (False, Some (''High fork/star ratio ('' @ str_int forks @ ''/''
                                         @ str_int stars @ '')''))
              else if stars > 50 \<and> watchers < 2
                then Inr (False, Some ''Low engagement (watchers)'')
              else if stars > 100 \<and> open_issues = 0 \<and> forks < 5
                then Inr (False, Some ''Low engagement (no issues/forks)'')
              else Inr (True, None))"

section \<open>Paginated query executor\<close>

definition join_space :: "string list \<Rightarrow> string" where
  "join_space ws = (case ws of [] \<Rightarrow> [] | w # rest \<Rightarrow> foldl (\<lambda>acc x. acc @ '' '' @ x) w rest)"

definition build_tier1_query :: "string \<Rightarrow> string" where
  "build_tier1_query base_query =
     (let filters = [''stars:>='' @ str_int min_stars, ''forks:>='' @ str_int min_forks,
                     ''is:public'', ''archived:false'']
      in if base_query \<noteq> [] then base_query @ '' '' @ join_space filters
         else join_space filters)"

text \<open>
  What the search endpoint can answer for one page: a response with its status code, the
  value of \<open>int(response.headers.get('X-RateLimit-Remaining', 0))\<close>, and the \<open>items\<close> and
  \<open>total_count\<close> of its body (read only when the status is 200); or an exception raised
  inside the \<open>try\<close> block, with its message, and with the header value when the exception
  came after the header was stored.
\<close>

datatype search_response =
  SearchResponse nat int "repo list" int
  | SearchException "int option" string

text \<open>The dict that \<open>fetch_page\<close> returns: \<open>success\<close> true or false.\<close>

datatype page_result =
  PageSuccess nat "repo list" nat nat int
  | PageFailure nat string

fun page_of :: "page_result \<Rightarrow> nat" where
  "page_of (PageSuccess page' repos' filtered_out' total_items' total_count') = page'"
| "page_of (PageFailure page' error') = page'"

text \<open>
  The Tier 2 loop of \<open>fetch_page\<close>: the valid items in order, and the count of the others;
  an exception of \<open>is_legitimate_project\<close> leaves the loop.
\<close>

fun tier2 :: "unicode \<Rightarrow> repo list \<Rightarrow> repo list \<Rightarrow> nat \<Rightarrow> float_error + repo list \<times> nat" where
  "tier2 U [] valid_repos filtered_out' = Inr (valid_repos, filtered_out')"
| "tier2 U (item # items) valid_repos filtered_out' =
     (case is_legitimate_project U item of
        Inl raised \<Rightarrow> Inl raised
      | Inr (is_valid, reason) \<Rightarrow>
          if is_valid then tier2 U items (valid_repos @ [item]) filtered_out'
          else tier2 U items valid_repos (filtered_out' + 1))"

text \<open>
  The \<open>except Exception\<close> of \<open>fetch_page\<close> also catches what the loop raises, after the
  header of the response was stored.
\<close>

definition fetch_page :: "unicode \<Rightarrow> search_response \<Rightarrow> nat \<Rightarrow> world \<Rightarrow> page_result \<times> world" where
  "fetch_page U response page' w =
     (case response of
        SearchException header msg \<Rightarrow>
          (PageFailure page' msg,
           case header of None \<Rightarrow> w | Some remaining \<Rightarrow> w\<lparr>rate_limit_remaining := remaining\<rparr>)
      | SearchResponse status remaining items total_count' \<Rightarrow>
          (let w1 = w\<lparr>rate_limit_remaining := remaining\<rparr> in
           if status = 200 then
             (case tier2 U items [] 0 of
                Inl raised \<Rightarrow> (PageFailure page' (error_message raised), w1)
              | Inr (valid_repos, filtered_out') \<Rightarrow>
                  (PageSuccess page' valid_repos filtered_out' (length items) total_count', w1))
           else if status = 403 then (PageFailure page' ''rate_limit'', w1)
           else (PageFailure page' (''HTTP '' @ str_int (int status)), w1)))"

section \<open>Search orchestrator\<close>

text \<open>
  Everything outside the process that one run depends on. The search endpoint answers a
  page of a (filtered) query under a sort key; the quota endpoint answers the check made
  before the batch that starts at a given offset of a query; every page request of a query
  finishes at some time, which orders the results of a parallel batch; a write of the
  state file or of the data file, made for a task, goes well or fails; and the interpreter
  comes with its Unicode database.
\<close>

datatype write_outcome = Written | OpenFailed | DumpFailed

record environment =
  pages :: "string \<Rightarrow> string \<Rightarrow> nat \<Rightarrow> search_response"
  quota :: "string \<Rightarrow> nat \<Rightarrow> rate_limit_response"
  finished_at :: "string \<Rightarrow> nat \<Rightarrow> nat"
  state_write :: "string \<Rightarrow> write_outcome"
  data_write :: "string \<Rightarrow> write_outcome"
  unicode_db :: unicode

definition per_page :: int where
  "per_page = 100"

definition batch_size :: nat where
  "batch_size = 5"

text \<open>\<open>min((max_results + per_page - 1) // per_page, 10)\<close>; a \<open>range\<close> up to a negative bound is empty.\<close>

definition max_pages_for :: "int \<Rightarrow> nat" where
  "max_pages_for max_results = nat (min ((max_results + per_page - 1) div per_page) 10)"

text \<open>\<open>range(0, max_pages, batch_size)\<close>\<close>

definition batch_starts :: "nat \<Rightarrow> nat list" where
  "batch_starts max_pages = map (\<lambda>k. k * batch_size) [0 ..< (max_pages + batch_size - 1) div batch_size]"

text \<open>\<open>range(batch_start + 1, min(batch_start + batch_size + 1, max_pages + 1))\<close>\<close>

definition batch_pages_of :: "nat \<Rightarrow> nat \<Rightarrow> nat list" where
  "batch_pages_of max_pages batch_start =
     [batch_start + 1 ..< min (batch_start + batch_size + 1) (max_pages + 1)]"

text \<open>\<open>xs[:n]\<close>: a negative bound counts from the end.\<close>

definition slice_to :: "'a list \<Rightarrow> int \<Rightarrow> 'a list" where
  "slice_to xs n = (if 0 \<le> n then take (nat n) xs else take (length xs - nat (- n)) xs)"

text \<open>
  The threads of one batch, in the order \<open>as_completed\<close> yields them. Each runs
  \<open>fetch_page\<close>, and so stores the header of its response in \<open>rate_limit_remaining\<close>.
\<close>

definition as_completed :: "(nat \<Rightarrow> nat) \<Rightarrow> nat list \<Rightarrow> nat list" where
  "as_completed finish batch_pages = sort_key finish batch_pages"

fun run_fetches ::
  "unicode \<Rightarrow> (nat \<Rightarrow> search_response) \<Rightarrow> nat list \<Rightarrow> world \<Rightarrow> page_result list \<times> world" where
  "run_fetches U endpoint [] w = ([], w)"
| "run_fetches U endpoint (page' # rest) w =
     (case fetch_page U (endpoint page') page' w of
        (result, w1) \<Rightarrow>
          (case run_fetches U endpoint rest w1 of
             (batch_results, w2) \<Rightarrow> (result # batch_results, w2)))"

text \<open>
  The loop over the sorted results of one batch: it returns from \<open>search_repos\<close>
  (\<open>Return\<close>), or falls through with the collected repos and \<open>total_filtered_out\<close>.
\<close>

datatype batch_outcome = Return "repo list option" | Fallthrough "repo list" nat

fun process_results :: "int \<Rightarrow> page_result list \<Rightarrow> repo list \<Rightarrow> nat \<Rightarrow> batch_outcome" where
  "process_results max_results [] repos total_filtered_out = Fallthrough repos total_filtered_out"
| "process_results max_results (PageFailure page' error' # results) repos total_filtered_out =
     (if error' = ''rate_limit'' then Return None
      else process_results max_results results repos total_filtered_out)"
| "process_results max_results
       (PageSuccess page' page_repos filtered_out' total_items' total_count' # results)
       repos total_filtered_out =
     (if page_repos = [] then Return (Some (slice_to repos max_results))
      else process_results max_results results (repos @ page_repos)
             (total_filtered_out + filtered_out'))"

text \<open>The code after the loop over the batches.\<close>

definition search_complete :: "int \<Rightarrow> repo list \<Rightarrow> nat \<Rightarrow> world \<Rightarrow> repo list option \<times> world" where
  "search_complete max_results repos total_filtered_out w =
     (Some (slice_to repos max_results),
      w\<lparr>progress_state := (progress_state w)
          \<lparr>filtered_count := filtered_count (progress_state w) + int total_filtered_out\<rparr>\<rparr>)"

text \<open>The loop over the batches, from the batch starts still to run.\<close>

fun search_batches ::
  "environment \<Rightarrow> string \<Rightarrow> string \<Rightarrow> int \<Rightarrow> nat \<Rightarrow> nat list \<Rightarrow> repo list \<Rightarrow> nat \<Rightarrow> world
     \<Rightarrow> repo list option \<times> world" where
  "search_batches env filtered_query sort' max_results max_pages [] repos total_filtered_out w =
     search_complete max_results repos total_filtered_out w"
| "search_batches env filtered_query sort' max_results max_pages (batch_start # later)
       repos total_filtered_out w =
     (let batch_pages = batch_pages_of max_pages batch_start in
      case wait_for_rate_limit (quota env filtered_query batch_start) w of
        (ok, w1) \<Rightarrow>
          if \<not> ok then (None, w1)
          else
            (let w2 = w1\<lparr>requests_sent :=
                          requests_sent w1 @ map (SearchRequest filtered_query) batch_pages\<rparr> in
             case run_fetches (unicode_db env) (pages env filtered_query sort')
                    (as_completed (finished_at env filtered_query) batch_pages) w2 of
               (batch_results, w3) \<Rightarrow>
                 (case process_results max_results (sort_key page_of batch_results)
                         repos total_filtered_out of
                    Return answer \<Rightarrow> (answer, w3)
                  | Fallthrough repos' total_filtered_out' \<Rightarrow>
                      if int (length repos') \<ge> max_results
                        then search_complete max_results repos' total_filtered_out' w3
                      else search_batches env filtered_query sort' max_results max_pages later
                             repos' total_filtered_out' w3)))"

definition search_repos ::
  "environment \<Rightarrow> string \<Rightarrow> int \<Rightarrow> string \<Rightarrow> world \<Rightarrow> repo list option \<times> world" where
  "search_repos env query max_results sort' w =
     (let max_pages = max_pages_for max_results;
          filtered_query = build_tier1_query query
      in search_batches env filtered_query sort' max_results max_pages
           (batch_starts max_pages) [] 0 w)"

section \<open>Checkpoint store\<close>

definition default_state :: progress_state where
  "default_state = \<lparr>phase = ''raw_data'', completed_tasks = [], enrichment_progress = 0,
     enriched_repos = [], filtered_count = 0\<rparr>"

definition load_state :: "progress_state disk_file \<Rightarrow> progress_state" where
  "load_state f = (case f of Stored state \<Rightarrow> state | Absent \<Rightarrow> default_state | Garbled \<Rightarrow> default_state)"

text \<open>
  \<open>with open(name, 'w') as f: json.dump(content, f)\<close>: when \<open>open\<close> fails the file is as
  before, when \<open>json.dump\<close> fails the truncated file is left behind.
\<close>

definition write_file :: "write_outcome \<Rightarrow> 'a \<Rightarrow> 'a disk_file \<Rightarrow> 'a disk_file" where
  "write_file outcome content old =
     (case outcome of Written \<Rightarrow> Stored content | OpenFailed \<Rightarrow> old | DumpFailed \<Rightarrow> Garbled)"

text \<open>\<open>save_state\<close> catches every exception of the write and prints it.\<close>

definition save_state :: "write_outcome \<Rightarrow> world \<Rightarrow> world" where
  "save_state outcome w = w\<lparr>state_file := write_file outcome (progress_state w) (state_file w)\<rparr>"

definition mark_task_complete :: "write_outcome \<Rightarrow> string \<Rightarrow> world \<Rightarrow> world" where
  "mark_task_complete outcome task_name w =
     (if task_name \<notin> set (completed_tasks (progress_state w)) then
        save_state outcome
          (w\<lparr>progress_state := (progress_state w)
               \<lparr>completed_tasks := completed_tasks (progress_state w) @ [task_name]\<rparr>\<rparr>)
      else w)"

definition is_task_complete :: "string \<Rightarrow> world \<Rightarrow> bool" where
  "is_task_complete task_name w = (task_name \<in> set (completed_tasks (progress_state w)))"

text \<open>The exception that a failed write raises, and that of reading a file that does not parse.\<close>

datatype exn = WriteError write_outcome | ReadError

text \<open>
  \<open>save_current_data\<close> has no handler: an exception of the write leaves the function, and
  the world it leaves behind comes with it.
\<close>

definition save_current_data :: "write_outcome \<Rightarrow> world \<Rightarrow> (exn \<times> world) + world" where
  "save_current_data outcome w =
     (if all_repos w = [] then Inr w
      else
        let output = \<lparr>meta_total_repos = length (all_repos w),
                      meta_completed_tasks = completed_tasks (progress_state w),
                      meta_filtered_count = filtered_count (progress_state w),
                      repositories = all_repos w\<rparr>;
            w1 = w\<lparr>raw_file := write_file outcome output (raw_file w)\<rparr>
        in if outcome = Written then Inr w1 else Inl (WriteError outcome, w1))"

definition load_existing_repos :: "world \<Rightarrow> bool \<times> world" where
  "load_existing_repos w =
     (case raw_file w of
        Stored data \<Rightarrow> (True, w\<lparr>all_repos := repositories data\<rparr>)
      | Absent \<Rightarrow> (False, w)
      | Garbled \<Rightarrow> (False, w))"

text \<open>
  A fresh process on the files the previous one left: \<open>GitHubRepoFetcher(token)\<close>, then the
  \<open>load_existing_repos\<close> of \<open>main\<close>.
\<close>

definition new_fetcher :: "world \<Rightarrow> world" where
  "new_fetcher w = \<lparr>all_repos = [], rate_limit_remaining = 60,
     progress_state = load_state (state_file w),
     state_file = state_file w, raw_file = raw_file w, enriched_file = enriched_file w,
     requests_sent = requests_sent w\<rparr>"

definition fresh_process :: "world \<Rightarrow> world" where
  "fresh_process w = snd (load_existing_repos (new_fetcher w))"

text \<open>The fetcher just constructed, with no file on disk and nothing sent.\<close>

definition world0 :: world where
  "world0 = \<lparr>all_repos = [], rate_limit_remaining = 60, progress_state = default_state,
     state_file = Absent, raw_file = Absent, enriched_file = Absent, requests_sent = []\<rparr>"

section \<open>Dedup aggregator\<close>

text \<open>The collection tasks; each has its own loop over the repos of a query.\<close>

datatype task_kind =
  TopStarred | Gsoc | Hacktoberfest | Topic string | Language string | GoodFirstIssue | Underrated

definition blank_entry :: "repo \<Rightarrow> entry" where
  "blank_entry r = \<lparr>source = [], is_gsoc = None, is_hacktoberfest = None,
     has_good_first_issues = None, is_underrated = None, topics = None, languages = None,
     raw_data = r\<rparr>"

text \<open>\<open>if x not in xs: xs.append(x)\<close>\<close>

definition append_new :: "'a \<Rightarrow> 'a list \<Rightarrow> 'a list" where
  "append_new x xs = (if x \<in> set xs then xs else xs @ [x])"

definition list_or_empty :: "'a list option \<Rightarrow> 'a list" where
  "list_or_empty xs = (case xs of None \<Rightarrow> [] | Some ys \<Rightarrow> ys)"

text \<open>\<open>stars < 2000 and (forks > 20 or watchers > 50)\<close>\<close>

definition underrated_rule :: "repo \<Rightarrow> bool" where
  "underrated_rule r =
     (stargazers_count r < 2000 \<and> (forks_count r > 20 \<or> watchers_count r > 50))"

text \<open>The body of the loop \<open>for repo in repos\<close> of each task, on \<open>self.all_repos\<close>.\<close>

fun ingest :: "task_kind \<Rightarrow> repo \<Rightarrow> entry dict \<Rightarrow> entry dict" where
  "ingest TopStarred r d =
     (case map_of d (full_name r) of
        None \<Rightarrow> AList.update (full_name r) ((blank_entry r)\<lparr>source := [''top_starred'']\<rparr>) d
      | Some e \<Rightarrow> AList.update (full_name r) (e\<lparr>source := source e @ [''top_starred'']\<rparr>) d)"
| "ingest Gsoc r d =
     (case map_of d (full_name r) of
        None \<Rightarrow> AList.update (full_name r)
                  ((blank_entry r)\<lparr>source := [''gsoc''], is_gsoc := Some True\<rparr>) d
      | Some e \<Rightarrow> AList.update (full_name r)
                  (e\<lparr>source := append_new ''gsoc'' (source e), is_gsoc := Some True\<rparr>) d)"
| "ingest Hacktoberfest r d =
     (case map_of d (full_name r) of
        None \<Rightarrow> AList.update (full_name r)
                  ((blank_entry r)\<lparr>source := [''hacktoberfest''], is_hacktoberfest := Some True\<rparr>) d
      | Some e \<Rightarrow> AList.update (full_name r)
                  (e\<lparr>source := append_new ''hacktoberfest'' (source e),
                     is_hacktoberfest := Some True\<rparr>) d)"
| "ingest (Topic topic) r d =
     (case map_of d (full_name r) of
        None \<Rightarrow> AList.update (full_name r)
                  ((blank_entry r)\<lparr>source := [''topic_'' @ topic], topics := Some [topic]\<rparr>) d
      | Some e \<Rightarrow> AList.update (full_name r)
                  (e\<lparr>source := source e @ [''topic_'' @ topic],
                     topics := Some (append_new topic (list_or_empty (topics e)))\<rparr>) d)"
| "ingest (Language lang) r d =
     (case map_of d (full_name r) of
        None \<Rightarrow> AList.update (full_name r)
                  ((blank_entry r)\<lparr>source := [''language_'' @ lang],
                                   languages := Some [lang]\<rparr>) d
      | Some e \<Rightarrow> AList.update (full_name r)
                  (e\<lparr>source := source e @ [''language_'' @ lang],
                     languages := Some (append_new lang (list_or_empty (languages e)))\<rparr>) d)"
| "ingest GoodFirstIssue r d =
     (case map_of d (full_name r) of
        None \<Rightarrow> AList.update (full_name r)
                  ((blank_entry r)\<lparr>source := [''good_first_issue''],
                                   has_good_first_issues := Some True\<rparr>) d
      | Some e \<Rightarrow> AList.update (full_name r)
                  (e\<lparr>source := append_new ''good_first_issue'' (source e),
                     has_good_first_issues := Some True\<rparr>) d)"
| "ingest Underrated r d =
     (let is_underrated' = underrated_rule r in
      case map_of d (full_name r) of
        None \<Rightarrow> AList.update (full_name r)
                  ((blank_entry r)\<lparr>source := [''underrated''],
                                   is_underrated := Some is_underrated'\<rparr>) d
      | Some e \<Rightarrow> AList.update (full_name r)
                  (e\<lparr>source := append_new ''underrated'' (source e),
                     is_underrated := Some is_underrated'\<rparr>) d)"

text \<open>A sequence of ingestions, each a task and a repo, applied in order.\<close>

definition ingest_all :: "(task_kind \<times> repo) list \<Rightarrow> entry dict \<Rightarrow> entry dict" where
  "ingest_all ingestions d = fold (\<lambda>(kind, r). ingest kind r) ingestions d"

text \<open>\<open>r.get(flag)\<close> as a truth value, \<open>repo_data.get(flag, False)\<close>: an absent flag reads false.\<close>

definition flag :: "bool option \<Rightarrow> bool" where
  "flag b = (case b of None \<Rightarrow> False | Some v \<Rightarrow> v)"

section \<open>Collection tasks\<close>

text \<open>The end of every task: \<open>mark_task_complete\<close>, \<open>save_current_data\<close>, \<open>return True\<close>.\<close>

definition complete_task :: "environment \<Rightarrow> string \<Rightarrow> world \<Rightarrow> (exn \<times> world) + (bool \<times> world)" where
  "complete_task env task_name w =
     (let w1 = mark_task_complete (state_write env task_name) task_name w in
      case save_current_data (data_write env task_name) w1 of
        Inl raised \<Rightarrow> Inl raised
      | Inr w2 \<Rightarrow> Inr (True, w2))"

definition fetch_top_repos :: "environment \<Rightarrow> int \<Rightarrow> world \<Rightarrow> (exn \<times> world) + (bool \<times> world)" where
  "fetch_top_repos env limit w =
     (let task_name = ''top_repos'' in
      if is_task_complete task_name w then Inr (True, w)
      else
        case search_repos env ''help-wanted-issues:>5'' limit ''stars'' w of
          (None, w1) \<Rightarrow> Inr (False, w1)
        | (Some repos, w1) \<Rightarrow>
            complete_task env task_name
              (w1\<lparr>all_repos := fold (ingest TopStarred) repos (all_repos w1)\<rparr>))"

text \<open>
  The loop \<open>for query in queries\<close> of the tasks with several queries: \<open>False\<close> as soon as
  one search returns \<open>None\<close>.
\<close>

fun run_queries ::
  "environment \<Rightarrow> task_kind \<Rightarrow> int \<Rightarrow> string \<Rightarrow> string list \<Rightarrow> world \<Rightarrow> bool \<times> world" where
  "run_queries env kind max_results sort' [] w = (True, w)"
| "run_queries env kind max_results sort' (query # queries) w =
     (case search_repos env query max_results sort' w of
        (None, w1) \<Rightarrow> (False, w1)
      | (Some repos, w1) \<Rightarrow>
          run_queries env kind max_results sort' queries
            (w1\<lparr>all_repos := fold (ingest kind) repos (all_repos w1)\<rparr>))"

definition fetch_gsoc_repos :: "environment \<Rightarrow> int \<Rightarrow> world \<Rightarrow> (exn \<times> world) + (bool \<times> world)" where
  "fetch_gsoc_repos env limit w =
     (let task_name = ''gsoc_repos'' in
      if is_task_complete task_name w then Inr (True, w)
      else
        let queries = [''gsoc in:name,description'',
                       ''google-summer-of-code in:name,description'',
                       ''topic:gsoc'', ''topic:google-summer-of-code''] in
        case run_queries env Gsoc (limit div int (length queries)) ''stars'' queries w of
          (False, w1) \<Rightarrow> Inr (False, w1)
        | (True, w1) \<Rightarrow> complete_task env task_name w1)"

definition fetch_hacktoberfest_repos :: "environment \<Rightarrow> int \<Rightarrow> world \<Rightarrow> (exn \<times> world) + (bool \<times> world)" where
  "fetch_hacktoberfest_repos env limit w =
     (let task_name = ''hacktoberfest_repos'' in
      if is_task_complete task_name w then Inr (True, w)
      else
        let queries = [''hacktoberfest in:name,description'', ''topic:hacktoberfest''] in
        case run_queries env Hacktoberfest (limit div int (length queries)) ''stars'' queries w of
          (False, w1) \<Rightarrow> Inr (False, w1)
        | (True, w1) \<Rightarrow> complete_task env task_name w1)"

definition fetch_good_first_issue_repos :: "environment \<Rightarrow> int \<Rightarrow> world \<Rightarrow> (exn \<times> world) + (bool \<times> world)" where
  "fetch_good_first_issue_repos env limit w =
     (let task_name = ''good_first_issue'' in
      if is_task_complete task_name w then Inr (True, w)
      else
        let queries = [''good-first-issue in:name,description'',
                       ''help-wanted in:name,description''] in
        case run_queries env GoodFirstIssue (limit div int (length queries)) ''stars'' queries w of
          (False, w1) \<Rightarrow> Inr (False, w1)
        | (True, w1) \<Rightarrow> complete_task env task_name w1)"

definition fetch_underrated_repos :: "environment \<Rightarrow> int \<Rightarrow> world \<Rightarrow> (exn \<times> world) + (bool \<times> world)" where
  "fetch_underrated_repos env limit w =
     (let task_name = ''underrated'' in
      if is_task_complete task_name w then Inr (True, w)
      else
        let queries = [''stars:100..1000 forks:>20'',
                       ''stars:500..2000 pushed:>2024-01-01'',
                       ''stars:200..1500 watchers:>50''] in
        case run_queries env Underrated (limit div int (length queries)) ''updated'' queries w of
          (False, w1) \<Rightarrow> Inr (False, w1)
        | (True, w1) \<Rightarrow> complete_task env task_name w1)"

text \<open>
  \<open>fetch_repos_by_topics\<close> and \<open>fetch_repos_by_languages\<close> are one loop, here \<open>fetch_each\<close>:
  every element of the list is a task of its own, with the name \<open>topic_X\<close> and the query
  \<open>topic:X\<close>, or \<open>language_X\<close> and \<open>language:X\<close>. A task already complete is skipped; the
  first search that returns \<open>None\<close> ends the loop with \<open>False\<close>; the others are marked
  complete and saved one by one.
\<close>

fun fetch_each ::
  "environment \<Rightarrow> (string \<Rightarrow> task_kind) \<Rightarrow> string \<Rightarrow> string \<Rightarrow> string list \<Rightarrow> int \<Rightarrow> world
     \<Rightarrow> (exn \<times> world) + (bool \<times> world)" where
  "fetch_each env kind name_prefix query_prefix [] limit w = Inr (True, w)"
| "fetch_each env kind name_prefix query_prefix (x # xs) limit w =
     (let task_name = name_prefix @ x in
      if is_task_complete task_name w
        then fetch_each env kind name_prefix query_prefix xs limit w
      else
        case search_repos env (query_prefix @ x) limit ''stars'' w of
          (None, w1) \<Rightarrow> Inr (False, w1)
        | (Some repos, w1) \<Rightarrow>
            (let w2 = mark_task_complete (state_write env task_name) task_name
                        (w1\<lparr>all_repos := fold (ingest (kind x)) repos (all_repos w1)\<rparr>) in
             case save_current_data (data_write env task_name) w2 of
               Inl raised \<Rightarrow> Inl raised
             | Inr w3 \<Rightarrow> fetch_each env kind name_prefix query_prefix xs limit w3))"

definition fetch_repos_by_topics ::
  "environment \<Rightarrow> string list \<Rightarrow> int \<Rightarrow> world \<Rightarrow> (exn \<times> world) + (bool \<times> world)" where
  "fetch_repos_by_topics env topics' limit_per_topic w =
     fetch_each env Topic ''topic_'' ''topic:'' topics' limit_per_topic w"

definition fetch_repos_by_languages ::
  "environment \<Rightarrow> string list \<Rightarrow> int \<Rightarrow> world \<Rightarrow> (exn \<times> world) + (bool \<times> world)" where
  "fetch_repos_by_languages env languages' limit_per_lang w =
     fetch_each env Language ''language_'' ''language:'' languages' limit_per_lang w"

text \<open>
  Where the process can die in the end of a task, and the world it leaves behind: before
  the state file is written, between the two writes, after both.
\<close>

datatype crash_point = BeforeMark | BetweenWrites | AfterSave

definition complete_task_until :: "crash_point \<Rightarrow> environment \<Rightarrow> string \<Rightarrow> world \<Rightarrow> world" where
  "complete_task_until point env task_name w =
     (case point of
        BeforeMark \<Rightarrow> w
      | BetweenWrites \<Rightarrow> mark_task_complete (state_write env task_name) task_name w
      | AfterSave \<Rightarrow>
          (case save_current_data (data_write env task_name)
                  (mark_task_complete (state_write env task_name) task_name w) of
             Inl (raised, w1) \<Rightarrow> w1
           | Inr w1 \<Rightarrow> w1))"

section \<open>Enrichment scheduler\<close>

text \<open>
  The body of the readme endpoint. \<open>decoded\<close> is what
  \<open>base64.b64decode(data['content']).decode('utf-8')\<close> gives, \<open>None\<close> when it raises.
\<close>

record readme =
  download_url :: "string option"
  readme_file :: "string option"
  content :: "string option"
  encoding :: "string option"
  decoded :: "string option"

text \<open>
  What an endpoint of a repository can answer: a response with its status code, the value of
  \<open>int(response.headers.get('X-RateLimit-Remaining', 0))\<close> and the JSON body (\<open>None\<close> for
  \<open>null\<close>; read only when the status is 200), or an exception raised inside the \<open>try\<close> block,
  with the header value when it came after the header was stored.
\<close>

datatype 'a endpoint_response =
  EndpointResponse nat int "'a option"
  | EndpointException "int option"

text \<open>
  Everything outside the process that the enrichment of a repository depends on: the answer
  of the quota endpoint to the check made for the repository, the answers of its three
  endpoints, the time at which the thread of the repository and the thread of each of its
  endpoints finishes, and how the writes of the output file and of the state file go (given
  the names written so far).
\<close>

record enrichment_environment =
  gate :: "string \<Rightarrow> rate_limit_response"
  details_of :: "string \<Rightarrow> repo endpoint_response"
  languages_of :: "string \<Rightarrow> (string \<times> int) list endpoint_response"
  readme_of :: "string \<Rightarrow> readme endpoint_response"
  repo_finished_at :: "string \<Rightarrow> nat"
  endpoint_finished_at :: "string \<Rightarrow> string \<Rightarrow> nat"
  enriched_write :: "string list \<Rightarrow> write_outcome"
  progress_write :: "string list \<Rightarrow> write_outcome"

text \<open>
  The dict \<open>enriched\<close> that \<open>enrich_repo_data_single\<close> fills. A key that is absent and a key
  that holds \<open>None\<close> read the same through \<open>get\<close>: both are \<open>None\<close> here.
\<close>

record enriched =
  detailed_info :: "repo option"
  primary_language :: "string option"
  license_name :: "string option"
  enriched_topics :: "string list option"
  languages_breakdown :: "(string \<times> int) list option"
  readme_url :: "string option"
  readme_name :: "string option"
  readme_content :: "string option"

definition empty_enriched :: enriched where
  "empty_enriched = \<lparr>detailed_info = None, primary_language = None, license_name = None,
     enriched_topics = None, languages_breakdown = None, readme_url = None, readme_name = None,
     readme_content = None\<rparr>"

text \<open>The inner function \<open>fetch_endpoint\<close>: the data of the pair it returns, and its effect.\<close>

definition fetch_endpoint :: "'a endpoint_response \<Rightarrow> world \<Rightarrow> 'a option \<times> world" where
  "fetch_endpoint response w =
     (case response of
        EndpointException header \<Rightarrow>
          (None, case header of None \<Rightarrow> w | Some remaining \<Rightarrow> w\<lparr>rate_limit_remaining := remaining\<rparr>)
      | EndpointResponse status remaining body \<Rightarrow>
          (let w1 = w\<lparr>rate_limit_remaining := remaining\<rparr> in
           if status = 200 then (body, w1)
           else if status = 403 then (None, w1)
           else (None, w1)))"

text \<open>The three branches of the loop over the completed futures.\<close>

definition add_details :: "repo option \<Rightarrow> enriched \<Rightarrow> enriched" where
  "add_details data e =
     (case data of
        None \<Rightarrow> e
      | Some d \<Rightarrow> e\<lparr>detailed_info := Some d, primary_language := language d,
                     license_name := license d, enriched_topics := Some (repo_topics d)\<rparr>)"

definition add_languages :: "(string \<times> int) list option \<Rightarrow> enriched \<Rightarrow> enriched" where
  "add_languages data e =
     (case data of None \<Rightarrow> e | Some d \<Rightarrow> e\<lparr>languages_breakdown := Some d\<rparr>)"

definition add_readme :: "readme option \<Rightarrow> enriched \<Rightarrow> enriched" where
  "add_readme data e =
     (case data of
        None \<Rightarrow> e
      | Some d \<Rightarrow>
          (let e1 = e\<lparr>readme_url := download_url d, readme_name := readme_file d\<rparr> in
           if content d \<noteq> None \<and> content d \<noteq> Some [] \<and> encoding d = Some ''base64'' then
             (case decoded d of None \<Rightarrow> e1 | Some text' \<Rightarrow> e1\<lparr>readme_content := Some text'\<rparr>)
           else e1))"

text \<open>
  \<open>enrich_repo_data_single\<close> runs in a thread of a batch, and the threads of a batch are all
  started when the batch is submitted: \<open>cached\<close> is the value that its
  \<open>wait_for_rate_limit\<close> reads, the count cached at that time. The three requests are
  submitted in the order of the dict \<open>endpoints\<close>; each thread stores the header of its
  response when it finishes. The three branches write different keys of \<open>enriched\<close>, so the
  order in which the results arrive does not show in it.
\<close>

definition enrich_repo_data_single ::
  "int \<Rightarrow> enrichment_environment \<Rightarrow> string \<Rightarrow> world \<Rightarrow> enriched option \<times> world" where
  "enrich_repo_data_single cached env repo_full_name w =
     (case rate_limit_gate cached (gate env repo_full_name) w of
        (ok, w1) \<Rightarrow>
          if \<not> ok then (None, w1)
          else
            (let w2 = w1\<lparr>requests_sent := requests_sent w1
                          @ map (\<lambda>name'. EndpointRequest name' repo_full_name)
                              [''details'', ''languages'', ''readme'']\<rparr>;
                 threads =
                   [(''details'', \<lambda>v. snd (fetch_endpoint (details_of env repo_full_name) v)),
                    (''languages'', \<lambda>v. snd (fetch_endpoint (languages_of env repo_full_name) v)),
                    (''readme'', \<lambda>v. snd (fetch_endpoint (readme_of env repo_full_name) v))];
                 w3 = fold (\<lambda>thread. snd thread)
                        (sort_key (\<lambda>thread. endpoint_finished_at env repo_full_name (fst thread))
                           threads) w2;
                 enriched' =
                   add_readme (fst (fetch_endpoint (readme_of env repo_full_name) w2))
                     (add_languages (fst (fetch_endpoint (languages_of env repo_full_name) w2))
                        (add_details (fst (fetch_endpoint (details_of env repo_full_name) w2))
                           empty_enriched))
             in (Some enriched', w3)))"

text \<open>\<open>format_repo_for_output\<close>; \<open>x or y\<close> takes \<open>y\<close> when \<open>x\<close> is \<open>None\<close> or empty.\<close>

definition format_repo_for_output :: "entry \<Rightarrow> enriched \<Rightarrow> formatted_repo" where
  "format_repo_for_output repo_data enriched_data =
     (let raw = raw_data repo_data;
          detailed = (case detailed_info enriched_data of None \<Rightarrow> raw | Some d \<Rightarrow> d)
      in \<lparr>out_name = name detailed,
          out_full_name = full_name detailed,
          out_description = description detailed,
          out_language =
            (if primary_language enriched_data \<noteq> None \<and> primary_language enriched_data \<noteq> Some []
             then primary_language enriched_data else language detailed),
          out_topics =
            (if list_or_empty (enriched_topics enriched_data) \<noteq> []
             then list_or_empty (enriched_topics enriched_data) else repo_topics detailed),
          out_stars = stargazers_count detailed,
          out_forks = forks_count detailed,
          out_open_issues = open_issues_count detailed,
          out_license =
            (if license_name enriched_data \<noteq> None \<and> license_name enriched_data \<noteq> Some []
             then license_name enriched_data else license detailed),
          out_readme = (case readme_content enriched_data of None \<Rightarrow> [] | Some text' \<Rightarrow> text'),
          out_languages = map fst (list_or_empty (languages_breakdown enriched_data)),
          out_is_gsoc = flag (is_gsoc repo_data),
          out_is_hacktoberfest = flag (is_hacktoberfest repo_data),
          out_is_underrated = flag (is_underrated repo_data),
          out_has_good_first_issues = flag (has_good_first_issues repo_data),
          out_sources = source repo_data\<rparr>)"

text \<open>
  \<open>_save_enriched_data\<close>, on the dict \<open>enriched_repos\<close> of \<open>enrich_all_repos\<close> (here
  \<open>so_far\<close>): the entries enriched so far, each with its \<open>enriched_data\<close>. It has no handler
  of its own.
\<close>

definition save_enriched_data ::
  "write_outcome \<Rightarrow> (entry \<times> enriched) dict \<Rightarrow> raw_output \<Rightarrow> world \<Rightarrow> (exn \<times> world) + world" where
  "save_enriched_data outcome so_far data w =
     (let formatted_repos = map (\<lambda>(full_name', repo_data, enriched_data).
                                   format_repo_for_output repo_data enriched_data) so_far;
          output = \<lparr>enriched_total_repos = length formatted_repos,
                    enriched_completed_tasks = meta_completed_tasks data,
                    enriched_filtered_count = meta_filtered_count data,
                    enriched_repositories = formatted_repos\<rparr>;
          w1 = w\<lparr>enriched_file := write_file outcome output (enriched_file w)\<rparr>
      in if outcome = Written then Inr w1 else Inl (WriteError outcome, w1))"

text \<open>
  The threads of one batch, in the order \<open>as_completed\<close> yields them; each runs
  \<open>enrich_repo_data_single\<close>. The whole batch is submitted at once (at most 10 futures on
  10 workers), so every thread makes its quota check on the count \<open>cached\<close> that the fetcher
  held when the batch was submitted; what the threads send and store is put in the order
  in which they finish.
\<close>

fun run_enrichments ::
  "enrichment_environment \<Rightarrow> int \<Rightarrow> (string \<times> entry) list \<Rightarrow> world
     \<Rightarrow> (string \<times> entry \<times> enriched option) list \<times> world" where
  "run_enrichments env cached [] w = ([], w)"
| "run_enrichments env cached ((full_name', repo_data) # rest) w =
     (case enrich_repo_data_single cached env full_name' w of
        (result, w1) \<Rightarrow>
          (case run_enrichments env cached rest w1 of
             (results, w2) \<Rightarrow> ((full_name', repo_data, result) # results, w2)))"

text \<open>
  The loop over the completed futures of one batch. It returns from \<open>enrich_all_repos\<close>
  (\<open>None\<close>) when a result is \<open>None\<close> and the progress is saved; the \<open>except Exception\<close> of
  the loop catches a failure of that save, and the loop goes on.
\<close>

fun process_enriched ::
  "enrichment_environment \<Rightarrow> raw_output \<Rightarrow> (string \<times> entry \<times> enriched option) list
     \<Rightarrow> (entry \<times> enriched) dict \<Rightarrow> world \<Rightarrow> (entry \<times> enriched) dict option \<times> world" where
  "process_enriched env data [] so_far w = (Some so_far, w)"
| "process_enriched env data ((full_name', repo_data, None) # rest) so_far w =
     (case save_enriched_data (enriched_write env (map fst so_far)) so_far data w of
        Inr w1 \<Rightarrow> (None, w1)
      | Inl (raised, w1) \<Rightarrow> process_enriched env data rest so_far w1)"
| "process_enriched env data ((full_name', repo_data, Some enriched') # rest) so_far w =
     (let so_far' = AList.update full_name' (repo_data, enriched') so_far in
      process_enriched env data rest so_far'
        (w\<lparr>progress_state := (progress_state w)
             \<lparr>enrichment_progress := length so_far',
              enriched_repos := append_new full_name' (enriched_repos (progress_state w))\<rparr>\<rparr>))"

text \<open>The loop over the batches, from the batches still to run.\<close>

fun enrich_batches ::
  "enrichment_environment \<Rightarrow> raw_output \<Rightarrow> (string \<times> entry) list list
     \<Rightarrow> (entry \<times> enriched) dict \<Rightarrow> world \<Rightarrow> (exn \<times> world) + world" where
  "enrich_batches env data [] so_far w = Inr w"
| "enrich_batches env data (batch # later) so_far w =
     (case run_enrichments env (rate_limit_remaining w)
             (sort_key (\<lambda>item. repo_finished_at env (fst item)) batch) w of
        (results, w1) \<Rightarrow>
          (case process_enriched env data results so_far w1 of
             (None, w2) \<Rightarrow> Inr w2
           | (Some so_far', w2) \<Rightarrow>
               (case save_enriched_data (enriched_write env (map fst so_far'))
                       so_far' data w2 of
                  Inl raised \<Rightarrow> Inl raised
                | Inr w3 \<Rightarrow>
                    enrich_batches env data later so_far'
                      (save_state (progress_write env (map fst so_far')) w3))))"

text \<open>\<open>[xs[i:i + n] for i in range(0, len(xs), n)]\<close>\<close>

fun chunks :: "nat \<Rightarrow> nat \<Rightarrow> 'a list \<Rightarrow> 'a list list" where
  "chunks 0 n xs = []"
| "chunks (Suc fuel) n xs = (if xs = [] then [] else take n xs # chunks fuel n (drop n xs))"

text \<open>
  The entries of an output file of a previous run that are still among \<open>repos\<close>, with the
  \<open>enriched_data\<close> that \<open>enrich_all_repos\<close> rebuilds for them.
\<close>

fun reload_enriched :: "entry dict \<Rightarrow> formatted_repo list \<Rightarrow> (entry \<times> enriched) dict
     \<Rightarrow> (entry \<times> enriched) dict" where
  "reload_enriched repos [] so_far = so_far"
| "reload_enriched repos (r # rest) so_far =
     (case map_of repos (out_full_name r) of
        Some repo_data \<Rightarrow>
          if out_full_name r \<noteq> [] then
            reload_enriched repos rest
              (AList.update (out_full_name r)
                 (repo_data,
                  empty_enriched\<lparr>primary_language := out_language r, license_name := out_license r,
                    enriched_topics := Some (out_topics r), readme_url := Some (out_readme r),
                    languages_breakdown := Some (map (\<lambda>lang. (lang, 0)) (out_languages r))\<rparr>)
                 so_far)
          else reload_enriched repos rest so_far
      | None \<Rightarrow> reload_enriched repos rest so_far)"

text \<open>
  \<open>enrich_all_repos\<close>. Reading an input file that does not parse raises, with no handler;
  an output file that does not parse is reported and taken as empty.
\<close>

definition enrich_all_repos ::
  "enrichment_environment \<Rightarrow> nat option \<Rightarrow> world \<Rightarrow> (exn \<times> world) + world" where
  "enrich_all_repos env limit w =
     (if phase (progress_state w) \<noteq> ''enrichment'' then Inr w
      else
        case raw_file w of
          Absent \<Rightarrow> Inr w
        | Garbled \<Rightarrow> Inl (ReadError, w)
        | Stored data \<Rightarrow>
            (let repos = repositories data;
                 so_far =
                   (case enriched_file w of
                      Stored existing_data \<Rightarrow>
                        reload_enriched repos (enriched_repositories existing_data) []
                    | Absent \<Rightarrow> []
                    | Garbled \<Rightarrow> []);
                 already_enriched = set (map fst so_far);
                 repos_to_enrich = filter (\<lambda>item. fst item \<notin> already_enriched) repos;
                 repos_to_enrich' =
                   (case limit of
                      None \<Rightarrow> repos_to_enrich
                    | Some n \<Rightarrow> if n = 0 then repos_to_enrich else take n repos_to_enrich)
             in if repos_to_enrich' = [] then Inr w
                else enrich_batches env data
                       (chunks (length repos_to_enrich') 10 repos_to_enrich') so_far w))"

section \<open>Observations on the trace\<close>

fun is_search_request :: "request \<Rightarrow> bool" where
  "is_search_request (SearchRequest q p) = True"
| "is_search_request RateLimitRequest = False"
| "is_search_request (EndpointRequest n r) = False"

text \<open>The number of search pages requested so far.\<close>

definition pages_requested :: "world \<Rightarrow> nat" where
  "pages_requested w = length (filter is_search_request (requests_sent w))"

text \<open>
  The dict that \<open>fetch_page\<close> returns for a page of a query; it does not depend on the
  world the request is made in.
\<close>

definition page_answer :: "environment \<Rightarrow> string \<Rightarrow> string \<Rightarrow> nat \<Rightarrow> page_result" where
  "page_answer env q srt p = fst (fetch_page (unicode_db env) (pages env q srt p) p world0)"

fun quota_exhausted :: "page_result \<Rightarrow> bool" where
  "quota_exhausted (PageFailure p e) = (e = ''rate_limit'')"
| "quota_exhausted (PageSuccess p rs f n t) = False"

fun no_valid_items :: "page_result \<Rightarrow> bool" where
  "no_valid_items (PageSuccess p rs f n t) = (rs = [])"
| "no_valid_items (PageFailure p e) = False"

text \<open>\<open>is_legitimate_project\<close> returns for the item, with \<open>is_valid\<close> false.\<close>

definition rejected :: "unicode \<Rightarrow> repo \<Rightarrow> bool" where
  "rejected U item =
     (case is_legitimate_project U item of Inl raised \<Rightarrow> False | Inr (is_valid, reason) \<Rightarrow> \<not> is_valid)"

fun valid_items :: "page_result \<Rightarrow> repo list" where
  "valid_items (PageSuccess p rs f n t) = rs"
| "valid_items (PageFailure p e) = []"

definition same_batch :: "nat \<Rightarrow> nat \<Rightarrow> bool" where
  "same_batch p' p = (0 < p' \<and> (p' - 1) div batch_size = (p - 1) div batch_size)"

definition collected_before :: "environment \<Rightarrow> string \<Rightarrow> string \<Rightarrow> nat \<Rightarrow> repo list" where
  "collected_before env q srt p = concat (map (\<lambda>p'. valid_items (page_answer env q srt p')) [1 ..< p])"


section \<open>Observations on a text\<close>

text \<open>
  What the three pattern lists look for, said without a matcher. \<open>last_of\<close> is the last
  character of a text, if it has one.
\<close>

definition last_of :: "str \<Rightarrow> nat option" where
  "last_of s = (if s = [] then None else Some (last s))"

text \<open>
  The character before the position that is reached by reading \<open>seg\<close>, from a position that
  has \<open>prev\<close> before it.
\<close>

definition after :: "nat option \<Rightarrow> str \<Rightarrow> nat option" where
  "after prev seg = (if seg = [] then prev else Some (last seg))"

text \<open>A segment of the text spells a word: letter by letter, the case ignored.\<close>

definition spells :: "unicode \<Rightarrow> string \<Rightarrow> str \<Rightarrow> bool" where
  "spells U w seg = list_all2 (same_letter U) (codes w) seg"

text \<open>The word stands in the text, with a word boundary before it and after it.\<close>

definition has_word :: "unicode \<Rightarrow> string \<Rightarrow> str \<Rightarrow> bool" where
  "has_word U w text =
     (\<exists>pre seg post. text = pre @ seg @ post \<and> spells U w seg
        \<and> at_boundary U (last_of pre) (seg @ post)
        \<and> at_boundary U (last_of (pre @ seg)) post)"

text \<open>
  Two words in a row stand in the text, with one whitespace character or dash between them
  (or nothing at all, when \<open>joined\<close>), and a word boundary before the first and after the
  second.
\<close>

definition has_pair :: "unicode \<Rightarrow> bool \<Rightarrow> string \<Rightarrow> string \<Rightarrow> str \<Rightarrow> bool" where
  "has_pair U joined w1 w2 text =
     (\<exists>pre seg1 sep seg2 post. text = pre @ seg1 @ sep @ seg2 @ post
        \<and> spells U w1 seg1 \<and> spells U w2 seg2
        \<and> ((joined \<and> sep = []) \<or> (\<exists>c. sep = [c] \<and> space_or_dash U c))
        \<and> at_boundary U (last_of pre) (seg1 @ sep @ seg2 @ post)
        \<and> at_boundary U (last_of (pre @ seg1 @ sep @ seg2)) post)"

text \<open>The text begins with \<open>awesome\<close> and a whitespace character or dash.\<close>

definition starts_awesome :: "unicode \<Rightarrow> str \<Rightarrow> bool" where
  "starts_awesome U text =
     (\<exists>seg c rest. text = seg @ c # rest \<and> spells U ''awesome'' seg \<and> space_or_dash U c)"

text \<open>The word \<open>resources\<close> and, later on the same line, the word \<open>list\<close>.\<close>

definition has_resources_list :: "unicode \<Rightarrow> str \<Rightarrow> bool" where
  "has_resources_list U text =
     (\<exists>pre seg1 gap seg2 post. text = pre @ seg1 @ gap @ seg2 @ post
        \<and> spells U ''resources'' seg1 \<and> spells U ''list'' seg2 \<and> 10 \<notin> set gap
        \<and> at_boundary U (last_of pre) (seg1 @ gap @ seg2 @ post)
        \<and> at_boundary U (last_of (pre @ seg1)) (gap @ seg2 @ post)
        \<and> at_boundary U (last_of (pre @ seg1 @ gap)) (seg2 @ post)
        \<and> at_boundary U (last_of (pre @ seg1 @ gap @ seg2)) post)"

text \<open>The three families.\<close>

definition tutorial_words :: "string list" where
  "tutorial_words =
     [''tutorial'', ''example'', ''demo'', ''sample'', ''boilerplate'', ''template'', ''starter'',
      ''learning'', ''course'', ''workshop'', ''practice'', ''exercise'']"

definition tutorial_like :: "unicode \<Rightarrow> str \<Rightarrow> bool" where
  "tutorial_like U text = (\<exists>w \<in> set tutorial_words. has_word U w text)"

definition portfolio_like :: "unicode \<Rightarrow> str \<Rightarrow> bool" where
  "portfolio_like U text =
     (has_word U ''portfolio'' text \<or> has_word U ''resume'' text \<or> has_word U ''cv'' text
      \<or> has_pair U True ''personal'' ''site'' text \<or> has_pair U True ''my'' ''website'' text
      \<or> has_word U ''profile'' text)"

definition awesome_like :: "unicode \<Rightarrow> str \<Rightarrow> bool" where
  "awesome_like U text =
     (starts_awesome U text \<or> has_pair U False ''awesome'' ''list'' text
      \<or> has_pair U False ''curated'' ''list'' text \<or> has_resources_list U text
      \<or> has_word U ''collection'' text)"

section \<open>Sample inputs\<close>

text \<open>
  A table that knows the ASCII characters only. On an ASCII text it answers as the
  database of Python does.
\<close>

definition ascii_lower :: "nat \<Rightarrow> nat" where
  "ascii_lower c = (if 65 \<le> c \<and> c \<le> 90 then c + 32 else c)"

definition plain_ascii :: unicode where
  "plain_ascii =
     \<lparr>is_alnum = (\<lambda>c. (48 \<le> c \<and> c \<le> 57) \<or> (65 \<le> c \<and> c \<le> 90) \<or> (97 \<le> c \<and> c \<le> 122)),
      is_space = (\<lambda>c. (9 \<le> c \<and> c \<le> 13) \<or> (28 \<le> c \<and> c \<le> 32)),
      lower = map ascii_lower,
      same_letter = (\<lambda>c t. ascii_lower t = ascii_lower c)\<rparr>"

definition good :: "string \<Rightarrow> repo" where
  "good n = \<lparr>name = codes ''kv'', description = Some (codes ''A fast key-value store''),
     full_name = ''o/'' @ n, license = Some ''MIT'', stargazers_count = 120, forks_count = 30,
     watchers_count = 10, open_issues_count = 4, language = Some ''C'', repo_topics = []\<rparr>"









definition unlicensed :: "string \<Rightarrow> repo" where
  "unlicensed n = (good n)\<lparr>license := None\<rparr>"

definition calm :: environment where
  "calm = \<lparr>pages = (\<lambda>q srt p. SearchResponse 200 50 [] 0),
     quota = (\<lambda>q b. RateLimitResponse 200 (Counted 50)),
     finished_at = (\<lambda>q p. p), state_write = (\<lambda>t. Written), data_write = (\<lambda>t. Written),
     unicode_db = plain_ascii\<rparr>"

text \<open>Page 1 has a valid item, page 2 only an item without license, the others a valid item.\<close>

definition three_pages :: environment where
  "three_pages = calm\<lparr>pages := (\<lambda>q srt p.
       if p = 1 then SearchResponse 200 50 [good ''a'', unlicensed ''b''] 3
       else if p = 2 then SearchResponse 200 49 [unlicensed ''c''] 3
       else SearchResponse 200 48 [good ''d''] 3)\<rparr>"


text \<open>Page 1 answers 403, page 2 has only an item without license, the others a valid item.\<close>

definition exhausted_then_filtered :: environment where
  "exhausted_then_filtered = calm\<lparr>pages := (\<lambda>q srt p.
       if p = 1 then SearchResponse 403 0 [] 0
       else if p = 2 then SearchResponse 200 49 [unlicensed ''c''] 3
       else SearchResponse 200 48 [good ''d''] 3)\<rparr>"


text \<open>Every write of the state file fails; every write of the data file fails.\<close>

definition state_write_fails :: environment where
  "state_write_fails = calm\<lparr>state_write := (\<lambda>t. DumpFailed)\<rparr>"

definition data_write_fails :: environment where
  "data_write_fails = three_pages\<lparr>data_write := (\<lambda>t. OpenFailed)\<rparr>"

text \<open>The world of \<open>fetch_top_repos\<close> after its loop over one repo, before the task is completed.\<close>

definition collected_one :: world where
  "collected_one =
     (case search_repos three_pages ''help-wanted-issues:>5'' 1 ''stars'' world0 of
        (None, w1) \<Rightarrow> w1
      | (Some repos, w1) \<Rightarrow> w1\<lparr>all_repos := fold (ingest TopStarred) repos (all_repos w1)\<rparr>)"

section \<open>Observations on the entity map\<close>

text \<open>A flag of the entry stored under a key; an absent entry reads false.\<close>

definition stored_flag :: "(entry \<Rightarrow> bool option) \<Rightarrow> entry dict \<Rightarrow> string \<Rightarrow> bool" where
  "stored_flag field d k = (case map_of d k of None \<Rightarrow> False | Some e \<Rightarrow> flag (field e))"

text \<open>The repo of the last ingestion by the underrated task under a key, if there is one.\<close>

fun last_underrated :: "string \<Rightarrow> (task_kind \<times> repo) list \<Rightarrow> repo option" where
  "last_underrated k [] = None"
| "last_underrated k ((kind, r) # rest) =
     (case last_underrated k rest of
        Some r' \<Rightarrow> Some r'
      | None \<Rightarrow> if kind = Underrated \<and> full_name r = k then Some r else None)"

text \<open>The tag that a task puts in \<open>source\<close>.\<close>

fun task_tag :: "task_kind \<Rightarrow> string" where
  "task_tag TopStarred = ''top_starred''"
| "task_tag Gsoc = ''gsoc''"
| "task_tag Hacktoberfest = ''hacktoberfest''"
| "task_tag (Topic topic) = ''topic_'' @ topic"
| "task_tag (Language lang) = ''language_'' @ lang"
| "task_tag GoodFirstIssue = ''good_first_issue''"
| "task_tag Underrated = ''underrated''"

text \<open>
  What of an entry does not depend on the order of the ingestions: the sets of its source
  tags, topics and languages, and the three flags that are only ever set.
\<close>

type_synonym facets = "string set \<times> string set \<times> string set \<times> bool \<times> bool \<times> bool"

definition facets_of :: "entry \<Rightarrow> facets" where
  "facets_of e = (set (source e), set (list_or_empty (topics e)), set (list_or_empty (languages e)),
     flag (is_gsoc e), flag (is_hacktoberfest e), flag (has_good_first_issues e))"

definition summary :: "entry dict \<Rightarrow> string \<Rightarrow> facets option" where
  "summary d k = map_option facets_of (map_of d k)"

text \<open>One ingestion, seen on the summaries.\<close>

fun add_facets :: "task_kind \<Rightarrow> facets \<Rightarrow> facets" where
  "add_facets kind (tags, tps, lgs, g, h, f) =
     (insert (task_tag kind) tags,
      (case kind of Topic topic \<Rightarrow> insert topic tps | _ \<Rightarrow> tps),
      (case kind of Language lang \<Rightarrow> insert lang lgs | _ \<Rightarrow> lgs),
      g \<or> kind = Gsoc, h \<or> kind = Hacktoberfest, f \<or> kind = GoodFirstIssue)"

definition no_facets :: facets where
  "no_facets = ({}, {}, {}, False, False, False)"

definition summary_ingest :: "task_kind \<times> repo \<Rightarrow> (string \<Rightarrow> facets option) \<Rightarrow> (string \<Rightarrow> facets option)" where
  "summary_ingest x m =
     m(full_name (snd x) \<mapsto>
        add_facets (fst x) (case m (full_name (snd x)) of None \<Rightarrow> no_facets | Some f \<Rightarrow> f))"

text \<open>
  What of an entry does not depend on the order in which its lists were filled: the
  summary, the \<open>is_underrated\<close> key and the raw payload.
\<close>

type_synonym digest = "facets \<times> bool option \<times> repo"

definition digest_of :: "entry \<Rightarrow> digest" where
  "digest_of e = (facets_of e, is_underrated e, raw_data e)"

definition digest :: "entry dict \<Rightarrow> string \<Rightarrow> digest option" where
  "digest d k = map_option digest_of (map_of d k)"

definition digest_ingest :: "task_kind \<times> repo \<Rightarrow> (string \<Rightarrow> digest option) \<Rightarrow> (string \<Rightarrow> digest option)" where
  "digest_ingest x m =
     m(full_name (snd x) \<mapsto>
        (case m (full_name (snd x)) of
           None \<Rightarrow> (add_facets (fst x) no_facets,
                     if fst x = Underrated then Some (underrated_rule (snd x)) else None,
                     snd x)
         | Some (f, u, raw) \<Rightarrow>
                    (add_facets (fst x) f,
                     if fst x = Underrated then Some (underrated_rule (snd x)) else u,
                     raw)))"

text \<open>The ingestions of one entity all carry the same payload.\<close>

definition same_payloads :: "(task_kind \<times> repo) list \<Rightarrow> bool" where
  "same_payloads ingestions =
     (\<forall>x \<in> set ingestions. \<forall>y \<in> set ingestions.
        full_name (snd x) = full_name (snd y) \<longrightarrow> snd x = snd y)"

section \<open>Sample entities\<close>

text \<open>Two payloads of one repository: the rule for underrated holds of the first only.\<close>

definition hot :: repo where
  "hot = good ''a''"

definition cold :: repo where
  "cold = (good ''a'')\<lparr>forks_count := 5\<rparr>"

section \<open>Observations on an enrichment\<close>

text \<open>The data that \<open>fetch_endpoint\<close> returns for a response.\<close>

definition endpoint_data :: "'a endpoint_response \<Rightarrow> 'a option" where
  "endpoint_data response =
     (case response of
        EndpointResponse status remaining body \<Rightarrow> if status = 200 then body else None
      | EndpointException header \<Rightarrow> None)"

text \<open>The entries that the loop over the results of a batch has recorded.\<close>

fun recorded :: "(string \<times> entry \<times> enriched option) list \<Rightarrow> (entry \<times> enriched) dict
     \<Rightarrow> (entry \<times> enriched) dict" where
  "recorded [] so_far = so_far"
| "recorded ((full_name', repo_data, None) # rest) so_far = recorded rest so_far"
| "recorded ((full_name', repo_data, Some enriched') # rest) so_far =
     recorded rest (AList.update full_name' (repo_data, enriched') so_far)"

text \<open>The output that \<open>_save_enriched_data\<close> builds.\<close>

definition enriched_output_of :: "(entry \<times> enriched) dict \<Rightarrow> raw_output \<Rightarrow> enriched_output" where
  "enriched_output_of so_far data =
     \<lparr>enriched_total_repos = length so_far,
      enriched_completed_tasks = meta_completed_tasks data,
      enriched_filtered_count = meta_filtered_count data,
      enriched_repositories = map (\<lambda>(full_name', repo_data, enriched_data).
                                   format_repo_for_output repo_data enriched_data) so_far\<rparr>"

section \<open>Sample enrichments\<close>

text \<open>A world in the enrichment phase, with two collected repositories in the data file.\<close>

definition two_repos :: raw_output where
  "two_repos = \<lparr>meta_total_repos = 2, meta_completed_tasks = [''top_repos''],
     meta_filtered_count = 0,
     repositories = ingest_all [(TopStarred, good ''a''), (TopStarred, good ''b'')] []\<rparr>"

definition enrichment_world :: world where
  "enrichment_world = world0\<lparr>progress_state := default_state\<lparr>phase := ''enrichment''\<rparr>,
     raw_file := Stored two_repos\<rparr>"

definition sample_readme :: readme where
  "sample_readme = \<lparr>download_url = Some ''u'', readme_file = Some ''README.md'',
     content = Some ''aGk='', encoding = Some ''base64'', decoded = Some ''hi''\<rparr>"

text \<open>
  Every endpoint of \<open>o/a\<close> answers 403 with no quota left in the header; the quota endpoint
  reports plenty, and \<open>o/b\<close>, whose thread finishes later, is answered in full.
\<close>

definition all_exhausted :: enrichment_environment where
  "all_exhausted = \<lparr>gate = (\<lambda>fn. RateLimitResponse 200 (Counted 4000)),
     details_of = (\<lambda>fn. if fn = ''o/a'' then EndpointResponse 403 0 None
                         else EndpointResponse 200 4000 (Some (good ''b''))),
     languages_of = (\<lambda>fn. if fn = ''o/a'' then EndpointResponse 403 0 None
                         else EndpointResponse 200 4000 (Some [(''C'', 10)])),
     readme_of = (\<lambda>fn. if fn = ''o/a'' then EndpointResponse 403 0 None
                         else EndpointResponse 200 4000 (Some sample_readme)),
     repo_finished_at = (\<lambda>fn. if fn = ''o/a'' then 0 else 1),
     endpoint_finished_at = (\<lambda>fn endpoint. 0),
     enriched_write = (\<lambda>names. Written), progress_write = (\<lambda>names. Written)\<rparr>"

text \<open>
  The readme of \<open>o/a\<close> answers 403 and its other endpoints answer in full, leaving 5 calls;
  the quota endpoint then reports 3 to the check made for \<open>o/b\<close>.
\<close>

definition partial_then_stop :: enrichment_environment where
  "partial_then_stop = \<lparr>gate = (\<lambda>fn. RateLimitResponse 200 (Counted 3)),
     details_of = (\<lambda>fn. EndpointResponse 200 5 (Some (good ''a''))),
     languages_of = (\<lambda>fn. EndpointResponse 200 5 (Some [(''C'', 10)])),
     readme_of = (\<lambda>fn. EndpointResponse 403 5 None),
     repo_finished_at = (\<lambda>fn. if fn = ''o/a'' then 0 else 1),
     endpoint_finished_at = (\<lambda>fn endpoint. 0),
     enriched_write = (\<lambda>names. Written), progress_write = (\<lambda>names. Written)\<rparr>"

section \<open>Facts about the sample inputs\<close>

lemma codes_eq_Nil: "(codes s = []) = (s = [])"
  by (simp add: codes_def)


text \<open>The name and the description of the sample repository match no pattern.\<close>

lemma good_text:
  "\<not> matches_pattern plain_ascii
        (codes ''kv'' @ codes '' '' @ codes ''A fast key-value store'') tutorial_patterns
   \<and> \<not> matches_pattern plain_ascii
        (codes ''kv'' @ codes '' '' @ codes ''A fast key-value store'') portfolio_patterns
   \<and> \<not> matches_pattern plain_ascii
        (codes ''kv'' @ codes '' '' @ codes ''A fast key-value store'') awesome_patterns
   \<and> length (strip plain_ascii (codes ''A fast key-value store'')) = 22
   \<and> length (strip plain_ascii (codes ''  a kv store  '')) = 10"
  by code_simp

lemmas verdict_eval = is_legitimate_project_def description_text_def Let_def good_def
  good_text exceeds_max_fork_star_ratio_def codes_eq_Nil

lemma good_legitimate: "is_legitimate_project plain_ascii (good n) = Inr (True, None)"
  by (simp add: verdict_eval)

lemma unlicensed_rejected:
  "is_legitimate_project U (unlicensed n) = Inr (False, Some ''No license'')"
  by (simp add: is_legitimate_project_def unlicensed_def Let_def)









lemma pages_requested_world0: "pages_requested world0 = 0"
  by (simp add: pages_requested_def world0_def)

text \<open>The equations that evaluate a search on a sample environment.\<close>

lemmas search_eval = search_repos_def max_pages_for_def per_page_def batch_starts_def
  batch_size_def batch_pages_of_def wait_for_rate_limit_def rate_limit_gate_def
  as_completed_def fetch_page_def good_legitimate unlicensed_rejected slice_to_def
  search_complete_def Let_def


section \<open>The quota gate\<close>

text \<open>
  Claim C7, as the code has it. \<open>wait_for_rate_limit\<close> sends a request to the quota endpoint
  exactly when the cached remaining count is below 10. It returns \<open>False\<close> exactly when that
  refresh was made and answered with status 200 and a body of which both the count, below
  5, and the reset time are read; the count is then the cached one. In every other case (no
  refresh, a count of 5 or more, another status, an exception of the request or of the
  body, also one raised after a count below 5 was stored) it returns \<open>True\<close>. It has no
  exceptional outcome: its result is a truth value and a world.
\<close>

theorem wait_for_rate_limit_gate:
  "requests_sent (snd (wait_for_rate_limit response w)) =
     (if rate_limit_remaining w < 10 then requests_sent w @ [RateLimitRequest]
      else requests_sent w)
   \<and> (\<not> fst (wait_for_rate_limit response w)) =
       (rate_limit_remaining w < 10
        \<and> (\<exists>remaining. response = RateLimitResponse 200 (Counted remaining) \<and> remaining < 5))
   \<and> (\<not> fst (wait_for_rate_limit response w)) =
       (rate_limit_remaining w < 10
        \<and> (\<exists>remaining. response = RateLimitResponse 200 (Counted remaining))
        \<and> rate_limit_remaining (snd (wait_for_rate_limit response w)) < 5)"
  by (auto simp add: wait_for_rate_limit_def rate_limit_gate_def check_rate_limit_def Let_def
           split: rate_limit_response.splits rate_limit_body.splits)

theorem wait_for_rate_limit_gate_witness:
  "\<not> fst (wait_for_rate_limit (RateLimitResponse 200 (Counted 4))
            (world0\<lparr>rate_limit_remaining := 9\<rparr>))
   \<and> fst (wait_for_rate_limit (RateLimitResponse 200 (Counted 5))
            (world0\<lparr>rate_limit_remaining := 9\<rparr>))
   \<and> fst (wait_for_rate_limit (RateLimitResponse 500 Unreadable)
            (world0\<lparr>rate_limit_remaining := 0\<rparr>))
   \<and> fst (wait_for_rate_limit RateLimitException (world0\<lparr>rate_limit_remaining := 0\<rparr>))
   \<and> requests_sent (snd (wait_for_rate_limit (RateLimitResponse 200 (Counted 4))
                            (world0\<lparr>rate_limit_remaining := 10\<rparr>))) = []"
  using
    wait_for_rate_limit_gate [of "RateLimitResponse 200 (Counted 4)"
      "world0\<lparr>rate_limit_remaining := 9\<rparr>"]
    wait_for_rate_limit_gate [of "RateLimitResponse 200 (Counted 5)"
      "world0\<lparr>rate_limit_remaining := 9\<rparr>"]
    wait_for_rate_limit_gate [of "RateLimitResponse 500 Unreadable"
      "world0\<lparr>rate_limit_remaining := 0\<rparr>"]
    wait_for_rate_limit_gate [of RateLimitException "world0\<lparr>rate_limit_remaining := 0\<rparr>"]
    wait_for_rate_limit_gate [of "RateLimitResponse 200 (Counted 4)"
      "world0\<lparr>rate_limit_remaining := 10\<rparr>"]
  by (simp add: world0_def)

text \<open>
  The claim as it was stated does not hold: the refresh is made, the count it stores is 3,
  below the floor of 5, and the gate returns \<open>True\<close>, because the body made the reading of
  the reset time raise.
\<close>

theorem wait_for_rate_limit_counterexample:
  "fst (wait_for_rate_limit (RateLimitResponse 200 (CountedOnly 3))
          (world0\<lparr>rate_limit_remaining := 9\<rparr>))
   \<and> requests_sent (snd (wait_for_rate_limit (RateLimitResponse 200 (CountedOnly 3))
                            (world0\<lparr>rate_limit_remaining := 9\<rparr>))) = [RateLimitRequest]
   \<and> rate_limit_remaining (snd (wait_for_rate_limit (RateLimitResponse 200 (CountedOnly 3))
                                   (world0\<lparr>rate_limit_remaining := 9\<rparr>))) = 3"
  by (simp add: wait_for_rate_limit_def rate_limit_gate_def check_rate_limit_def world0_def Let_def)


section \<open>The validator\<close>

subsection \<open>What the patterns match\<close>

lemma after_Nil [simp]: "after prev [] = prev"
  by (simp add: after_def)

lemma after_Cons [simp]: "after prev (t # seg) = after (Some t) seg"
  by (simp add: after_def)

lemma after_after: "after (after prev pre) seg = after prev (pre @ seg)"
  by (simp add: after_def)

lemma after_None: "after None s = last_of s"
  by (simp add: after_def last_of_def)

lemma spells_Nil [simp]: "spells U [] seg = (seg = [])"
  by (auto simp add: spells_def codes_def)

lemma spells_Cons:
  "spells U (c # w) seg = (\<exists>t seg'. seg = t # seg' \<and> same_letter U (of_char c) t \<and> spells U w seg')"
  by (auto simp add: spells_def codes_def list_all2_Cons1)

lemma lit_Nil: "lit [] = []"
  by (simp add: lit_def codes_def)

lemma lit_Cons: "lit (c # w) = Chr (of_char c) # lit w"
  by (simp add: lit_def codes_def)

lemma split_Cons_append:
  "(\<exists>pre rest. t # ts = pre @ rest \<and> P pre rest)
     = (P [] (t # ts) \<or> (\<exists>pre rest. ts = pre @ rest \<and> P (t # pre) rest))"
proof
  assume "\<exists>pre rest. t # ts = pre @ rest \<and> P pre rest"
  then obtain pre rest where eq: "t # ts = pre @ rest" and p: "P pre rest"
    by blast
  show "P [] (t # ts) \<or> (\<exists>pre rest. ts = pre @ rest \<and> P (t # pre) rest)"
  proof (cases pre)
    case Nil
    then show ?thesis using eq p by simp
  next
    case (Cons a pre')
    then have "ts = pre' @ rest \<and> P (t # pre') rest"
      using eq p by simp
    then show ?thesis by blast
  qed
next
  assume "P [] (t # ts) \<or> (\<exists>pre rest. ts = pre @ rest \<and> P (t # pre) rest)"
  then show "\<exists>pre rest. t # ts = pre @ rest \<and> P pre rest"
  proof
    assume "P [] (t # ts)"
    then have "t # ts = [] @ (t # ts) \<and> P [] (t # ts)"
      by simp
    then show ?thesis by blast
  next
    assume "\<exists>pre rest. ts = pre @ rest \<and> P (t # pre) rest"
    then obtain pre rest where "ts = pre @ rest" and "P (t # pre) rest"
      by blast
    then have "t # ts = (t # pre) @ rest \<and> P (t # pre) rest"
      by simp
    then show ?thesis by blast
  qed
qed

lemma match_lit:
  "match_here U (lit w @ ps) prev s
     = (\<exists>seg rest. s = seg @ rest \<and> spells U w seg \<and> match_here U ps (after prev seg) rest)"
proof (induction w arbitrary: prev s)
  case Nil
  show ?case by (simp add: lit_Nil)
next
  case (Cons c w)
  show ?case
  proof (cases s)
    case Nil
    then show ?thesis by (simp add: spells_Cons lit_Cons)
  next
    case (Cons t ts)
    show ?thesis
      unfolding Cons
      by (simp add: Cons.IH [of "Some t" ts] spells_Cons lit_Cons
            split_Cons_append [of t ts "\<lambda>seg rest. (\<exists>t' seg'. seg = t' # seg'
                 \<and> same_letter U (of_char c) t' \<and> spells U w seg')
                 \<and> match_here U ps (after prev seg) rest"])
         blast
  qed
qed

lemma search_from_iff:
  "search_from U p prev s
     = (\<exists>pre rest. s = pre @ rest \<and> match_here U p (after prev pre) rest)"
proof (induction s arbitrary: prev)
  case Nil
  show ?case by simp
next
  case (Cons t ts)
  show ?case
    by (simp add: Cons.IH
          split_Cons_append [of t ts "\<lambda>pre rest. match_here U p (after prev pre) rest"])
qed

lemma match_any_star:
  "match_here U (AnyStar # ps) prev s
     = (\<exists>gap rest. s = gap @ rest \<and> 10 \<notin> set gap \<and> match_here U ps (after prev gap) rest)"
proof (induction s arbitrary: prev)
  case Nil
  show ?case by simp
next
  case (Cons t ts)
  show ?case
    by (simp add: Cons.IH
          split_Cons_append [of t ts "\<lambda>gap rest. 10 \<notin> set gap
                                       \<and> match_here U ps (after prev gap) rest"])
       blast
qed

lemma last_of_after: "after (last_of pre) seg = last_of (pre @ seg)"
  by (simp add: after_def last_of_def)

lemma last_of_after_Some: "after (Some c) seg = last_of (pre @ c # seg)"
  by (simp add: after_def last_of_def)

lemma re_search_word: "re_search U (word w) s = has_word U w s"
proof -
  have "re_search U (word w) s
          = (\<exists>pre rest. s = pre @ rest \<and> at_boundary U (last_of pre) rest
               \<and> (\<exists>seg post. rest = seg @ post \<and> spells U w seg
                      \<and> at_boundary U (last_of (pre @ seg)) post))"
    by (simp add: re_search_def word_def search_from_iff match_lit after_None last_of_after)
  also have "\<dots> = has_word U w s"
    unfolding has_word_def by blast
  finally show ?thesis .
qed


lemma match_space_dash:
  "match_here U (SpaceDash # ps) prev s
     = (\<exists>c rest. s = c # rest \<and> space_or_dash U c \<and> match_here U ps (Some c) rest)"
  by (cases s) auto

lemma match_opt_space_dash:
  "match_here U (OptSpaceDash # ps) prev s
     = (match_here U ps prev s
        \<or> (\<exists>c rest. s = c # rest \<and> space_or_dash U c \<and> match_here U ps (Some c) rest))"
  by (cases s) auto

lemma re_search_pair:
  "re_search U (WordB # lit w1 @ SpaceDash # lit w2 @ [WordB]) s = has_pair U False w1 w2 s"
proof -
  have "re_search U (WordB # lit w1 @ SpaceDash # lit w2 @ [WordB]) s
          = (\<exists>pre rest. s = pre @ rest \<and> at_boundary U (last_of pre) rest
               \<and> (\<exists>seg1 r1. rest = seg1 @ r1 \<and> spells U w1 seg1
                     \<and> (\<exists>c r2. r1 = c # r2 \<and> space_or_dash U c
                           \<and> (\<exists>seg2 post. r2 = seg2 @ post \<and> spells U w2 seg2
                                 \<and> at_boundary U (after (Some c) seg2) post))))"
    by (simp add: re_search_def search_from_iff match_lit match_space_dash after_None)
  also have "\<dots> = has_pair U False w1 w2 s"
  proof
    assume "\<exists>pre rest. s = pre @ rest \<and> at_boundary U (last_of pre) rest
               \<and> (\<exists>seg1 r1. rest = seg1 @ r1 \<and> spells U w1 seg1
                     \<and> (\<exists>c r2. r1 = c # r2 \<and> space_or_dash U c
                           \<and> (\<exists>seg2 post. r2 = seg2 @ post \<and> spells U w2 seg2
                                 \<and> at_boundary U (after (Some c) seg2) post)))"
    then obtain pre seg1 c seg2 post where
      "s = pre @ seg1 @ [c] @ seg2 @ post" "spells U w1 seg1" "spells U w2 seg2"
      "space_or_dash U c" "at_boundary U (last_of pre) (seg1 @ [c] @ seg2 @ post)"
      "at_boundary U (after (Some c) seg2) post"
      by auto
    moreover have "after (Some c) seg2 = last_of (pre @ seg1 @ [c] @ seg2)"
      by (simp add: after_def last_of_def)
    ultimately show "has_pair U False w1 w2 s"
      unfolding has_pair_def by metis
  next
    assume "has_pair U False w1 w2 s"
    then obtain pre seg1 c seg2 post where
      "s = pre @ seg1 @ [c] @ seg2 @ post" "spells U w1 seg1" "spells U w2 seg2"
      "space_or_dash U c" "at_boundary U (last_of pre) (seg1 @ [c] @ seg2 @ post)"
      "at_boundary U (last_of (pre @ seg1 @ [c] @ seg2)) post"
      unfolding has_pair_def by auto
    moreover have "after (Some c) seg2 = last_of (pre @ seg1 @ [c] @ seg2)"
      by (simp add: after_def last_of_def)
    ultimately show "\<exists>pre rest. s = pre @ rest \<and> at_boundary U (last_of pre) rest
               \<and> (\<exists>seg1 r1. rest = seg1 @ r1 \<and> spells U w1 seg1
                     \<and> (\<exists>c r2. r1 = c # r2 \<and> space_or_dash U c
                           \<and> (\<exists>seg2 post. r2 = seg2 @ post \<and> spells U w2 seg2
                                 \<and> at_boundary U (after (Some c) seg2) post)))"
      by (metis append_Cons append_Nil)
  qed
  finally show ?thesis .
qed


lemma has_pair_joined:
  "has_pair U True w1 w2 s
     = ((\<exists>pre seg1 seg2 post. s = pre @ seg1 @ seg2 @ post
           \<and> spells U w1 seg1 \<and> spells U w2 seg2
           \<and> at_boundary U (last_of pre) (seg1 @ seg2 @ post)
           \<and> at_boundary U (last_of (pre @ seg1 @ seg2)) post)
        \<or> has_pair U False w1 w2 s)"
    (is "?lhs = (?joined \<or> ?apart)")
proof
  assume ?lhs
  then obtain pre seg1 sep seg2 post where
    a: "s = pre @ seg1 @ sep @ seg2 @ post \<and> spells U w1 seg1 \<and> spells U w2 seg2
        \<and> at_boundary U (last_of pre) (seg1 @ sep @ seg2 @ post)
        \<and> at_boundary U (last_of (pre @ seg1 @ sep @ seg2)) post"
    and sep: "sep = [] \<or> (\<exists>c. sep = [c] \<and> space_or_dash U c)"
    unfolding has_pair_def by blast
  from sep show "?joined \<or> ?apart"
  proof
    assume "sep = []"
    then have "s = pre @ seg1 @ seg2 @ post \<and> spells U w1 seg1 \<and> spells U w2 seg2
        \<and> at_boundary U (last_of pre) (seg1 @ seg2 @ post)
        \<and> at_boundary U (last_of (pre @ seg1 @ seg2)) post"
      using a by simp
    then have ?joined by blast
    then show ?thesis ..
  next
    assume "\<exists>c. sep = [c] \<and> space_or_dash U c"
    then have ?apart
      unfolding has_pair_def using a by blast
    then show ?thesis ..
  qed
next
  assume "?joined \<or> ?apart"
  then show ?lhs
  proof
    assume ?joined
    then obtain pre seg1 seg2 post where
      "s = pre @ seg1 @ seg2 @ post \<and> spells U w1 seg1 \<and> spells U w2 seg2
        \<and> at_boundary U (last_of pre) (seg1 @ seg2 @ post)
        \<and> at_boundary U (last_of (pre @ seg1 @ seg2)) post"
      by blast
    then have "s = pre @ seg1 @ [] @ seg2 @ post \<and> spells U w1 seg1 \<and> spells U w2 seg2
        \<and> ((True \<and> ([]::str) = []) \<or> (\<exists>c. [] = [c] \<and> space_or_dash U c))
        \<and> at_boundary U (last_of pre) (seg1 @ [] @ seg2 @ post)
        \<and> at_boundary U (last_of (pre @ seg1 @ [] @ seg2)) post"
      by simp
    then show ?lhs
      unfolding has_pair_def by (intro exI)
  next
    assume ?apart
    then obtain pre seg1 sep seg2 post where
      "s = pre @ seg1 @ sep @ seg2 @ post \<and> spells U w1 seg1 \<and> spells U w2 seg2
        \<and> at_boundary U (last_of pre) (seg1 @ sep @ seg2 @ post)
        \<and> at_boundary U (last_of (pre @ seg1 @ sep @ seg2)) post"
      and "\<exists>c. sep = [c] \<and> space_or_dash U c"
      unfolding has_pair_def by blast
    then have "s = pre @ seg1 @ sep @ seg2 @ post \<and> spells U w1 seg1 \<and> spells U w2 seg2
        \<and> ((True \<and> sep = []) \<or> (\<exists>c. sep = [c] \<and> space_or_dash U c))
        \<and> at_boundary U (last_of pre) (seg1 @ sep @ seg2 @ post)
        \<and> at_boundary U (last_of (pre @ seg1 @ sep @ seg2)) post"
      by simp
    then show ?lhs
      unfolding has_pair_def by (intro exI)
  qed
qed

lemma re_search_joined_pair:
  "re_search U (WordB # lit w1 @ OptSpaceDash # lit w2 @ [WordB]) s = has_pair U True w1 w2 s"
proof -
  have "re_search U (WordB # lit w1 @ OptSpaceDash # lit w2 @ [WordB]) s
          = ((\<exists>pre rest. s = pre @ rest \<and> at_boundary U (last_of pre) rest
               \<and> (\<exists>seg1 r1. rest = seg1 @ r1 \<and> spells U w1 seg1
                     \<and> (\<exists>seg2 post. r1 = seg2 @ post \<and> spells U w2 seg2
                           \<and> at_boundary U (last_of (pre @ seg1 @ seg2)) post)))
             \<or> re_search U (WordB # lit w1 @ SpaceDash # lit w2 @ [WordB]) s)"
    by (simp add: re_search_def search_from_iff match_lit match_opt_space_dash
          match_space_dash after_None last_of_after ex_disj_distrib conj_disj_distribL)
  also have "(\<exists>pre rest. s = pre @ rest \<and> at_boundary U (last_of pre) rest
               \<and> (\<exists>seg1 r1. rest = seg1 @ r1 \<and> spells U w1 seg1
                     \<and> (\<exists>seg2 post. r1 = seg2 @ post \<and> spells U w2 seg2
                           \<and> at_boundary U (last_of (pre @ seg1 @ seg2)) post)))
        = (\<exists>pre seg1 seg2 post. s = pre @ seg1 @ seg2 @ post
           \<and> spells U w1 seg1 \<and> spells U w2 seg2
           \<and> at_boundary U (last_of pre) (seg1 @ seg2 @ post)
           \<and> at_boundary U (last_of (pre @ seg1 @ seg2)) post)"
    by blast
  finally show ?thesis
    by (simp add: re_search_pair has_pair_joined)
qed

lemma re_search_starts:
  "re_search U (Bol # lit ''awesome'' @ [SpaceDash]) s = starts_awesome U s"
proof -
  have none: "(after None pre = None) = (pre = [])" for pre :: str
    by (simp add: after_def)
  have "re_search U (Bol # lit ''awesome'' @ [SpaceDash]) s
          = (\<exists>seg rest. s = seg @ rest \<and> spells U ''awesome'' seg
               \<and> (\<exists>c rest'. rest = c # rest' \<and> space_or_dash U c))"
    by (simp add: re_search_def search_from_iff match_lit match_space_dash none
         )
  also have "\<dots> = starts_awesome U s"
    unfolding starts_awesome_def by blast
  finally show ?thesis .
qed

lemma re_search_resources_list:
  "re_search U (word ''resources'' @ AnyStar # word ''list'') s = has_resources_list U s"
proof -
  have "re_search U (word ''resources'' @ AnyStar # word ''list'') s
          = (\<exists>pre rest. s = pre @ rest \<and> at_boundary U (last_of pre) rest
               \<and> (\<exists>seg1 r1. rest = seg1 @ r1 \<and> spells U ''resources'' seg1
                     \<and> at_boundary U (last_of (pre @ seg1)) r1
                     \<and> (\<exists>gap r2. r1 = gap @ r2 \<and> 10 \<notin> set gap
                           \<and> at_boundary U (last_of (pre @ seg1 @ gap)) r2
                           \<and> (\<exists>seg2 post. r2 = seg2 @ post \<and> spells U ''list'' seg2
                                 \<and> at_boundary U (last_of (pre @ seg1 @ gap @ seg2)) post))))"
    by (simp add: re_search_def word_def search_from_iff match_lit match_any_star
          after_None last_of_after)
  also have "\<dots> = has_resources_list U s"
    unfolding has_resources_list_def by blast
  finally show ?thesis .
qed


lemma matches_tutorial:
  "matches_pattern U t tutorial_patterns = (t \<noteq> [] \<and> tutorial_like U (lower U t))"
  by (simp add: matches_pattern_def tutorial_patterns_def tutorial_like_def tutorial_words_def
        re_search_word)

lemma matches_portfolio:
  "matches_pattern U t portfolio_patterns = (t \<noteq> [] \<and> portfolio_like U (lower U t))"
  by (simp add: matches_pattern_def portfolio_patterns_def portfolio_like_def re_search_word
        re_search_joined_pair)

lemma matches_awesome:
  "matches_pattern U t awesome_patterns = (t \<noteq> [] \<and> awesome_like U (lower U t))"
  by (simp add: matches_pattern_def awesome_patterns_def awesome_like_def re_search_word
        re_search_pair re_search_starts re_search_resources_list)


subsection \<open>The verdict\<close>

lemma combined_text_not_empty: "name r @ codes '' '' @ description_text r \<noteq> []"
  by (simp add: codes_def)


text \<open>
  Beyond these counts the division rounds or overflows: the item is rejected for its ratio
  only when the quotient is above \<open>2 + 1 / 2 ^ 52\<close>, and the validator raises when the quotient
  is too large for a float.
\<close>

lemma is_legitimate_project_raises:
  "(is_legitimate_project U r = Inl OverflowError) =
     (license r \<noteq> None \<and> description_text r \<noteq> []
      \<and> \<not> length (strip U (description_text r)) < 20
      \<and> \<not> tutorial_like U (lower U (name r @ codes '' '' @ description_text r))
      \<and> \<not> portfolio_like U (lower U (name r @ codes '' '' @ description_text r))
      \<and> \<not> awesome_like U (lower U (name r @ codes '' '' @ description_text r))
      \<and> stargazers_count r > 0
      \<and> \<bar>forks_count r\<bar> \<ge> (2 ^ 1024 - 2 ^ 970) * stargazers_count r)"
  by (simp add: is_legitimate_project_def Let_def exceeds_max_fork_star_ratio_def
        matches_tutorial matches_portfolio matches_awesome combined_text_not_empty)



section \<open>Bounds of a search\<close>

lemma pages_requested_wait_for_rate_limit:
  "pages_requested (snd (wait_for_rate_limit response w)) = pages_requested w"
  by (simp add: wait_for_rate_limit_def rate_limit_gate_def check_rate_limit_def
        pages_requested_def Let_def
      split: rate_limit_response.splits rate_limit_body.splits)

lemma requests_sent_fetch_page: "requests_sent (snd (fetch_page U response p w)) = requests_sent w"
  by (simp add: fetch_page_def Let_def split: search_response.splits option.splits prod.splits sum.splits)

lemma requests_sent_run_fetches:
  "requests_sent (snd (run_fetches U endpoint ps w)) = requests_sent w"
proof (induction ps arbitrary: w)
  case Nil
  show ?case by simp
next
  case (Cons p ps)
  obtain result w1 where f: "fetch_page U (endpoint p) p w = (result, w1)"
    by (cases "fetch_page U (endpoint p) p w")
  obtain rs w2 where r: "run_fetches U endpoint ps w1 = (rs, w2)"
    by (cases "run_fetches U endpoint ps w1")
  have "requests_sent w1 = requests_sent w"
    using requests_sent_fetch_page [of U "endpoint p" p w] f by simp
  moreover have "requests_sent w2 = requests_sent w1"
    using Cons.IH [of w1] r by simp
  ultimately show ?case using f r by simp
qed

lemma length_batch_pages_of: "length (batch_pages_of max_pages b) \<le> batch_size"
  by (auto simp add: batch_pages_of_def min_def)

lemma pages_requested_search_complete:
  "pages_requested (snd (search_complete max_results repos tfo w)) = pages_requested w"
  by (simp add: search_complete_def pages_requested_def)

lemma pages_requested_search_batches:
  "pages_requested (snd (search_batches env q srt max_results max_pages bs repos tfo w))
     \<le> pages_requested w + batch_size * length bs"
proof (induction bs arbitrary: repos tfo w)
  case Nil
  show ?case by (simp add: pages_requested_search_complete)
next
  case (Cons b bs)
  obtain ok w1 where g: "wait_for_rate_limit (quota env q b) w = (ok, w1)"
    by (cases "wait_for_rate_limit (quota env q b) w")
  have w1: "pages_requested w1 = pages_requested w"
    using pages_requested_wait_for_rate_limit [of "quota env q b" w] g by simp
  show ?case
  proof (cases ok)
    case False
    then show ?thesis using g w1 by simp
  next
    case True
    define w2 where
      "w2 = w1\<lparr>requests_sent := requests_sent w1 @ map (SearchRequest q) (batch_pages_of max_pages b)\<rparr>"
    obtain rs w3 where r:
      "run_fetches (unicode_db env) (pages env q srt)
         (as_completed (finished_at env q) (batch_pages_of max_pages b)) w2 = (rs, w3)"
      by (cases "run_fetches (unicode_db env) (pages env q srt)
                   (as_completed (finished_at env q) (batch_pages_of max_pages b)) w2")
    have "requests_sent w3 = requests_sent w2"
      using requests_sent_run_fetches [of "unicode_db env" "pages env q srt"
          "as_completed (finished_at env q) (batch_pages_of max_pages b)" w2] r
      by simp
    then have "pages_requested w3 = pages_requested w1 + length (batch_pages_of max_pages b)"
      by (simp add: pages_requested_def w2_def)
    then have w3: "pages_requested w3 \<le> pages_requested w + batch_size"
      using w1 length_batch_pages_of [of max_pages b] by simp
    show ?thesis
    proof (cases "process_results max_results (sort_key page_of rs) repos tfo")
      case (Return answer)
      then show ?thesis using g True r w3 by (simp add: w2_def Let_def)
    next
      case (Fallthrough repos' tfo')
      show ?thesis
      proof (cases "int (length repos') \<ge> max_results")
        case True
        then show ?thesis
          using g \<open>ok\<close> r w3 Fallthrough
          by (simp add: w2_def Let_def pages_requested_search_complete)
      next
        case False
        have "pages_requested (snd (search_batches env q srt max_results max_pages bs repos' tfo' w3))
                \<le> pages_requested w3 + batch_size * length bs"
          by (rule Cons.IH)
        then show ?thesis
          using g \<open>ok\<close> r w3 Fallthrough False
          by (simp add: w2_def Let_def)
      qed
    qed
  qed
qed

lemma length_batch_starts: "length (batch_starts (max_pages_for max_results)) \<le> 2"
  by (simp add: batch_starts_def max_pages_for_def batch_size_def)

lemma length_slice_to: "0 \<le> n \<Longrightarrow> int (length (slice_to xs n)) \<le> n"
  by (simp add: slice_to_def)

lemma process_results_Return:
  "process_results max_results results repos tfo = Return (Some answer)
     \<Longrightarrow> \<exists>collected. answer = slice_to collected max_results"
  by (induction max_results results repos tfo rule: process_results.induct)
     (auto split: if_splits)

lemma search_batches_answer:
  "fst (search_batches env q srt max_results max_pages bs repos tfo w) = Some answer
     \<Longrightarrow> \<exists>collected. answer = slice_to collected max_results"
proof (induction bs arbitrary: repos tfo w)
  case Nil
  then show ?case by (auto simp add: search_complete_def)
next
  case (Cons b bs)
  then show ?case
    by (auto simp add: Let_def search_complete_def
             split: prod.splits if_splits batch_outcome.splits
             dest: process_results_Return)
qed

text \<open>
  Claim C5. \<open>search_repos\<close> is a total function: its loops run over the finitely many
  batches and pages computed beforehand, so it returns for every \<open>max_results\<close>. Whatever
  the environment answers, it requests at most 10 pages, and when \<open>max_results\<close> is a count
  (not negative) a list it returns has at most \<open>max_results\<close> items.
\<close>

theorem search_repos_bounded:
  "pages_requested (snd (search_repos env query max_results sort' w)) \<le> pages_requested w + 10
   \<and> (0 \<le> max_results \<longrightarrow>
        (\<forall>answer. fst (search_repos env query max_results sort' w) = Some answer
           \<longrightarrow> int (length answer) \<le> max_results))"
proof -
  have "pages_requested (snd (search_repos env query max_results sort' w))
          \<le> pages_requested w + batch_size * length (batch_starts (max_pages_for max_results))"
    unfolding search_repos_def Let_def by (rule pages_requested_search_batches)
  moreover have "batch_size * length (batch_starts (max_pages_for max_results)) \<le> 10"
    using length_batch_starts [of max_results] by (simp add: batch_size_def)
  ultimately have a:
    "pages_requested (snd (search_repos env query max_results sort' w)) \<le> pages_requested w + 10"
    by linarith
  have b: "int (length answer) \<le> max_results"
    if pos: "0 \<le> max_results"
      and ans: "fst (search_repos env query max_results sort' w) = Some answer" for answer
  proof -
    obtain collected where "answer = slice_to collected max_results"
      using ans search_batches_answer unfolding search_repos_def Let_def by blast
    then show ?thesis using pos length_slice_to by simp
  qed
  show ?thesis using a b by blast
qed

theorem search_repos_bounded_witness:
  "(0::int) \<le> 1
   \<and> fst (search_repos three_pages ''x'' 1 ''stars'' world0) = Some [good ''a'']
   \<and> int (length [good ''a'']) \<le> 1
   \<and> pages_requested (snd (search_repos three_pages ''x'' 50000 ''stars'' world0)) \<le> 10"
proof -
  have one: "fst (search_repos three_pages ''x'' 1 ''stars'' world0) = Some [good ''a'']"
    by (simp add: search_eval three_pages_def calm_def world0_def)
  show ?thesis
    using one pages_requested_world0
      search_repos_bounded [of three_pages "''x''" 1 "''stars''" world0]
      search_repos_bounded [of three_pages "''x''" 50000 "''stars''" world0]
    by simp
qed


section \<open>The results of a batch\<close>

lemma fst_fetch_page: "fst (fetch_page U response p w) = fst (fetch_page U response p w')"
  by (simp add: fetch_page_def Let_def split: search_response.splits prod.splits sum.splits)

lemma fst_fetch_page_answer: "fst (fetch_page (unicode_db env) (pages env q srt p) p w) = page_answer env q srt p"
  unfolding page_answer_def by (rule fst_fetch_page)

lemma page_of_fetch_page: "page_of (fst (fetch_page U response p w)) = p"
  by (simp add: fetch_page_def Let_def split: search_response.splits prod.splits sum.splits)

lemma page_of_page_answer: "page_of (page_answer env q srt p) = p"
  unfolding page_answer_def by (rule page_of_fetch_page)

lemma fst_run_fetches:
  "fst (run_fetches (unicode_db env) (pages env q srt) ps w) = map (page_answer env q srt) ps"
proof (induction ps arbitrary: w)
  case Nil
  show ?case by simp
next
  case (Cons p ps)
  obtain result w1 where f: "fetch_page (unicode_db env) (pages env q srt p) p w = (result, w1)"
    by (cases "fetch_page (unicode_db env) (pages env q srt p) p w")
  obtain rs w2 where r: "run_fetches (unicode_db env) (pages env q srt) ps w1 = (rs, w2)"
    by (cases "run_fetches (unicode_db env) (pages env q srt) ps w1")
  have "result = page_answer env q srt p"
    using fst_fetch_page_answer [of env q srt p w] f by simp
  moreover have "rs = map (page_answer env q srt) ps"
    using Cons.IH [of w1] r by simp
  ultimately show ?case using f r by simp
qed

lemma sorted_batch_results:
  assumes "sorted ps" and "distinct ps"
  shows "sort_key page_of (fst (run_fetches (unicode_db env) (pages env q srt) (as_completed finish ps) w))
           = map (page_answer env q srt) ps"
proof -
  let ?g = "page_answer env q srt"
  have key: "page_of (?g p) = p" for p
    by (rule page_of_page_answer)
  have "sort_key page_of (map ?g (sort_key finish ps)) = map ?g ps"
  proof (rule sort_key_inj_key_eq)
    show "mset (map ?g (sort_key finish ps)) = mset (map ?g ps)"
      by simp
    show "inj_on page_of (set (map ?g (sort_key finish ps)))"
      by (rule inj_onI) (auto simp add: key)
    show "sorted (map page_of (map ?g ps))"
      using assms(1) by (simp add: comp_def key)
  qed
  then show ?thesis
    by (simp add: fst_run_fetches as_completed_def)
qed


lemma process_results_no_valid_items:
  assumes "no_valid_items (f p)"
    and "\<forall>x \<in> set pre. \<not> no_valid_items (f x) \<and> \<not> quota_exhausted (f x)"
  shows "process_results mr (map f (pre @ p # post)) repos tfo
           = Return (Some (slice_to (repos @ concat (map (\<lambda>x. valid_items (f x)) pre)) mr))"
  using assms
proof (induction pre arbitrary: repos tfo)
  case Nil
  then show ?case by (cases "f p") simp_all
next
  case (Cons x pre)
  then show ?case by (cases "f x") simp_all
qed

lemma process_results_Fallthrough:
  "process_results mr (map f ps) repos tfo = Fallthrough repos' tfo'
     \<Longrightarrow> repos' = repos @ concat (map (\<lambda>x. valid_items (f x)) ps)"
proof (induction ps arbitrary: repos tfo)
  case Nil
  then show ?case by simp
next
  case (Cons x ps)
  show ?case
  proof (cases "f x")
    case (PageSuccess a rs c d e)
    with Cons.prems have "process_results mr (map f ps) (repos @ rs) (tfo + c) = Fallthrough repos' tfo'"
      by (auto split: if_splits)
    from Cons.IH [OF this] show ?thesis using PageSuccess by simp
  next
    case (PageFailure a e)
    with Cons.prems have "process_results mr (map f ps) repos tfo = Fallthrough repos' tfo'"
      by (auto split: if_splits)
    from Cons.IH [OF this] show ?thesis using PageFailure by simp
  qed
qed

lemma requests_sent_wait_for_rate_limit:
  "set (requests_sent (snd (wait_for_rate_limit response w)))
     \<subseteq> insert RateLimitRequest (set (requests_sent w))"
  by (auto simp add: wait_for_rate_limit_def rate_limit_gate_def check_rate_limit_def Let_def
           split: rate_limit_response.splits rate_limit_body.splits)

lemma requests_sent_search_complete:
  "requests_sent (snd (search_complete mr repos tfo w)) = requests_sent w"
  by (simp add: search_complete_def)

lemma batch_pages_split:
  assumes "p \<in> set (batch_pages_of mp b)"
  shows "\<exists>post. batch_pages_of mp b = [b + 1 ..< p] @ p # post"
proof -
  let ?m = "min (b + batch_size + 1) (mp + 1)"
  have "b + 1 \<le> p" and "p < ?m"
    using assms by (auto simp add: batch_pages_of_def)
  then have "[b + 1 ..< ?m] = [b + 1 ..< p] @ p # [Suc p ..< ?m]"
    by (metis le_Suc_ex upt_add_eq_append upt_conv_Cons less_imp_le_nat upt_rec)
  then show ?thesis by (auto simp add: batch_pages_of_def)
qed

lemma search_batches_step:
  obtains (stopped) w1 where
      "search_batches env q srt mr mp (b # bs) repos tfo w = (None, w1)"
      "set (requests_sent w1) \<subseteq> insert RateLimitRequest (set (requests_sent w))"
  | (ran) w3 where
      "set (requests_sent w3) \<subseteq> insert RateLimitRequest (set (requests_sent w))
          \<union> SearchRequest q ` set (batch_pages_of mp b)"
      "search_batches env q srt mr mp (b # bs) repos tfo w =
         (case process_results mr (map (page_answer env q srt) (batch_pages_of mp b)) repos tfo of
            Return answer \<Rightarrow> (answer, w3)
          | Fallthrough repos' tfo' \<Rightarrow>
              if int (length repos') \<ge> mr then search_complete mr repos' tfo' w3
              else search_batches env q srt mr mp bs repos' tfo' w3)"
proof -
  obtain ok w1 where g: "wait_for_rate_limit (quota env q b) w = (ok, w1)"
    by (cases "wait_for_rate_limit (quota env q b) w")
  have w1: "set (requests_sent w1) \<subseteq> insert RateLimitRequest (set (requests_sent w))"
    using requests_sent_wait_for_rate_limit [of "quota env q b" w] g by simp
  show thesis
  proof (cases ok)
    case False
    then have "search_batches env q srt mr mp (b # bs) repos tfo w = (None, w1)"
      using g by simp
    then show thesis using w1 by (rule stopped)
  next
    case True
    define w2 where
      "w2 = w1\<lparr>requests_sent := requests_sent w1 @ map (SearchRequest q) (batch_pages_of mp b)\<rparr>"
    obtain rs w3 where r:
      "run_fetches (unicode_db env) (pages env q srt) (as_completed (finished_at env q) (batch_pages_of mp b)) w2
         = (rs, w3)"
      by (cases "run_fetches (unicode_db env) (pages env q srt)
                   (as_completed (finished_at env q) (batch_pages_of mp b)) w2")
    have "requests_sent w3 = requests_sent w2"
      using requests_sent_run_fetches [of "unicode_db env" "pages env q srt"
          "as_completed (finished_at env q) (batch_pages_of mp b)" w2] r
      by simp
    then have w3: "set (requests_sent w3) \<subseteq> insert RateLimitRequest (set (requests_sent w))
          \<union> SearchRequest q ` set (batch_pages_of mp b)"
      using w1 by (auto simp add: w2_def)
    have "sorted (batch_pages_of mp b)"
      unfolding batch_pages_of_def by (rule sorted_upt)
    moreover have "distinct (batch_pages_of mp b)"
      unfolding batch_pages_of_def by (rule distinct_upt)
    ultimately have "sort_key page_of rs = map (page_answer env q srt) (batch_pages_of mp b)"
      using sorted_batch_results [of "batch_pages_of mp b" env q srt "finished_at env q" w2] r
      by simp
    then have "search_batches env q srt mr mp (b # bs) repos tfo w =
         (case process_results mr (map (page_answer env q srt) (batch_pages_of mp b)) repos tfo of
            Return answer \<Rightarrow> (answer, w3)
          | Fallthrough repos' tfo' \<Rightarrow>
              if int (length repos') \<ge> mr then search_complete mr repos' tfo' w3
              else search_batches env q srt mr mp bs repos' tfo' w3)"
      using g True r by (simp add: w2_def Let_def)
    with w3 show thesis by (rule ran)
  qed
qed


lemma requested_in_batches:
  assumes fresh: "SearchRequest q p \<notin> set (requests_sent w)"
    and req: "SearchRequest q p \<in> set (requests_sent (snd (search_batches env q srt mr mp bs repos tfo w)))"
  shows "\<exists>b \<in> set bs. p \<in> set (batch_pages_of mp b)"
  using fresh req
proof (induction bs arbitrary: repos tfo w)
  case Nil
  then show ?case by (simp add: requests_sent_search_complete)
next
  case (Cons b bs)
  show ?case
  proof (cases "p \<in> set (batch_pages_of mp b)")
    case True
    then show ?thesis by simp
  next
    case False
    show ?thesis
    proof (cases rule: search_batches_step [of env q srt mr mp b bs repos tfo w])
      case (stopped w1)
      then show ?thesis using Cons.prems by auto
    next
      case (ran w3)
      have fresh3: "SearchRequest q p \<notin> set (requests_sent w3)"
        using ran(1) Cons.prems(1) False by auto
      show ?thesis
      proof (cases "process_results mr (map (page_answer env q srt) (batch_pages_of mp b)) repos tfo")
        case (Return answer)
        then show ?thesis using ran(2) Cons.prems(2) fresh3 by simp
      next
        case (Fallthrough repos' tfo')
        show ?thesis
        proof (cases "int (length repos') \<ge> mr")
          case True
          then show ?thesis
            using ran(2) Cons.prems(2) fresh3 Fallthrough
            by (simp add: requests_sent_search_complete)
        next
          case False
          then have "search_batches env q srt mr mp (b # bs) repos tfo w
                          = search_batches env q srt mr mp bs repos' tfo' w3"
            using ran(2) Fallthrough by simp
          then have "SearchRequest q p
                 \<in> set (requests_sent (snd (search_batches env q srt mr mp bs repos' tfo' w3)))"
            using Cons.prems(2) by simp
          from Cons.IH [OF fresh3 this] show ?thesis by simp
        qed
      qed
    qed
  qed
qed

lemma search_batches_no_valid_items:
  assumes fresh: "SearchRequest q p \<notin> set (requests_sent w)"
    and req: "SearchRequest q p \<in> set (requests_sent (snd (search_batches env q srt mr mp bs repos tfo w)))"
    and nv: "no_valid_items (page_answer env q srt p)"
    and pre: "\<forall>b \<in> set bs. p \<in> set (batch_pages_of mp b)
                \<longrightarrow> (\<forall>p' \<in> set [b + 1 ..< p]. \<not> no_valid_items (page_answer env q srt p')
                                             \<and> \<not> quota_exhausted (page_answer env q srt p'))"
    and bs: "bs = map (\<lambda>k. k * batch_size) [k0 ..< n]"
  shows "fst (search_batches env q srt mr mp bs repos tfo w)
           = Some (slice_to (repos @ concat (map (\<lambda>x. valid_items (page_answer env q srt x))
                                              [k0 * batch_size + 1 ..< p])) mr)"
  using fresh req pre bs
proof (induction bs arbitrary: repos tfo w k0)
  case Nil
  then show ?case by (simp add: requests_sent_search_complete)
next
  case (Cons b bs)
  let ?A = "page_answer env q srt"
  have k0: "k0 < n"
    using Cons.prems(4) by (cases "k0 < n") simp_all
  then have upt: "[k0 ..< n] = k0 # [Suc k0 ..< n]"
    by (rule upt_conv_Cons)
  have b: "b = k0 * batch_size" and rest: "bs = map (\<lambda>k. k * batch_size) [Suc k0 ..< n]"
    using Cons.prems(4) upt by simp_all
  show ?case
  proof (cases rule: search_batches_step [of env q srt mr mp b bs repos tfo w])
    case (stopped w1)
    then show ?thesis using Cons.prems(1,2) by auto
  next
    case (ran w3)
    show ?thesis
    proof (cases "p \<in> set (batch_pages_of mp b)")
      case True
      then obtain post where "batch_pages_of mp b = [b + 1 ..< p] @ p # post"
        using batch_pages_split by blast
      moreover have "\<forall>x \<in> set [b + 1 ..< p]. \<not> no_valid_items (?A x) \<and> \<not> quota_exhausted (?A x)"
        using Cons.prems(3) True by simp
      ultimately have "process_results mr (map ?A (batch_pages_of mp b)) repos tfo
          = Return (Some (slice_to (repos @ concat (map (\<lambda>x. valid_items (?A x)) [b + 1 ..< p])) mr))"
        using nv process_results_no_valid_items [where f = ?A and p = p
            and pre = "[b + 1 ..< p]" and post = post and mr = mr and repos = repos and tfo = tfo]
        by simp
      then show ?thesis using ran(2) b by simp
    next
      case False
      then have fresh3: "SearchRequest q p \<notin> set (requests_sent w3)"
        using ran(1) Cons.prems(1) by auto
      show ?thesis
      proof (cases "process_results mr (map ?A (batch_pages_of mp b)) repos tfo")
        case (Return answer)
        then show ?thesis using ran(2) Cons.prems(2) fresh3 by simp
      next
        case (Fallthrough repos' tfo')
        show ?thesis
        proof (cases "int (length repos') \<ge> mr")
          case True
          then show ?thesis
            using ran(2) Cons.prems(2) fresh3 Fallthrough
            by (simp add: requests_sent_search_complete)
        next
          case False
          then have eq: "search_batches env q srt mr mp (b # bs) repos tfo w
                          = search_batches env q srt mr mp bs repos' tfo' w3"
            using ran(2) Fallthrough by simp
          then have req3: "SearchRequest q p
                 \<in> set (requests_sent (snd (search_batches env q srt mr mp bs repos' tfo' w3)))"
            using Cons.prems(2) by simp
          have pre3: "\<forall>b \<in> set bs. p \<in> set (batch_pages_of mp b)
                \<longrightarrow> (\<forall>p' \<in> set [b + 1 ..< p]. \<not> no_valid_items (?A p') \<and> \<not> quota_exhausted (?A p'))"
            using Cons.prems(3) by simp
          have ih: "fst (search_batches env q srt mr mp bs repos' tfo' w3)
                 = Some (slice_to (repos' @ concat (map (\<lambda>x. valid_items (?A x))
                                              [Suc k0 * batch_size + 1 ..< p])) mr)"
            by (rule Cons.IH [OF fresh3 req3 pre3 rest])
          obtain b' where "b' \<in> set bs" and "p \<in> set (batch_pages_of mp b')"
            using requested_in_batches [OF fresh3 req3] by blast
          then obtain k' where "Suc k0 \<le> k'" and "b' = k' * batch_size"
            using rest by auto
          with \<open>p \<in> set (batch_pages_of mp b')\<close>
          have lo: "Suc k0 * batch_size + 1 \<le> p" and hi: "p \<le> mp"
            by (auto simp add: batch_pages_of_def batch_size_def)
          have "min (b + batch_size + 1) (mp + 1) = Suc k0 * batch_size + 1"
            using lo hi b by simp
          then have full: "batch_pages_of mp b = [k0 * batch_size + 1 ..< Suc k0 * batch_size + 1]"
            using b by (simp only: batch_pages_of_def)
          have repos': "repos' = repos @ concat (map (\<lambda>x. valid_items (?A x)) (batch_pages_of mp b))"
            using Fallthrough by (rule process_results_Fallthrough)
          have le: "k0 * batch_size + 1 \<le> Suc k0 * batch_size + 1"
            by simp
          obtain d where d: "p = (Suc k0 * batch_size + 1) + d"
            using lo le_Suc_ex by blast
          have "[k0 * batch_size + 1 ..< (Suc k0 * batch_size + 1) + d]
                  = [k0 * batch_size + 1 ..< Suc k0 * batch_size + 1]
                    @ [Suc k0 * batch_size + 1 ..< (Suc k0 * batch_size + 1) + d]"
            using le by (rule upt_add_eq_append)
          then have "[k0 * batch_size + 1 ..< p]
                  = [k0 * batch_size + 1 ..< Suc k0 * batch_size + 1] @ [Suc k0 * batch_size + 1 ..< p]"
            using d by simp
          then show ?thesis using ih eq repos' full by simp
        qed
      qed
    qed
  qed
qed









lemma same_batch_pages:
  assumes "b \<in> set (batch_starts mp)" and "p \<in> set (batch_pages_of mp b)"
    and "p' \<in> set [b + 1 ..< p]"
  shows "p' < p \<and> same_batch p' p"
proof -
  obtain k where b: "b = k * batch_size"
    using assms(1) by (auto simp add: batch_starts_def)
  have "b + 1 \<le> p'" and "p' < p" and "p \<le> b + batch_size"
    using assms(2,3) by (auto simp add: batch_pages_of_def)
  then have "(p' - 1) div batch_size = k" and "(p - 1) div batch_size = k" and "0 < p'"
    using b by (auto simp add: batch_size_def)
  then show ?thesis using \<open>p' < p\<close> by (simp add: same_batch_def)
qed


section \<open>Quota exhaustion inside a batch\<close>







section \<open>A page with no valid item\<close>

lemma tier2_all_rejected:
  assumes "\<forall>item \<in> set items. rejected U item"
  shows "tier2 U items valid n = Inr (valid, n + length items)"
  using assms
proof (induction items arbitrary: n)
  case Nil
  show ?case by simp
next
  case (Cons item items)
  then show ?case
    by (auto simp add: rejected_def split: sum.splits)
qed

lemma no_valid_items_all_rejected:
  assumes "pages env q srt p = SearchResponse 200 remaining items tc"
    and "\<forall>item \<in> set items. rejected (unicode_db env) item"
  shows "no_valid_items (page_answer env q srt p)"
  using assms by (simp add: page_answer_def fetch_page_def tier2_all_rejected)

text \<open>
  Claim C10, as amended. When a page that the query requests comes back with status 200 and
  every one of its items is rejected by \<open>is_legitimate_project\<close> (the raw page may well
  hold items), and no page before it in its batch did the same or reported quota
  exhaustion, then \<open>search_repos\<close> returns at once: its answer is what the pages before
  that one contributed, cut to \<open>max_results\<close>, whatever the later pages hold.
\<close>

theorem search_repos_stops_at_filtered_page:
  assumes fresh: "SearchRequest (build_tier1_query query) p \<notin> set (requests_sent w)"
    and req: "SearchRequest (build_tier1_query query) p
                \<in> set (requests_sent (snd (search_repos env query max_results sort' w)))"
    and page: "pages env (build_tier1_query query) sort' p = SearchResponse 200 remaining items tc"
    and rejected: "\<forall>item \<in> set items. rejected (unicode_db env) item"
    and pre: "\<forall>p'. p' < p \<and> same_batch p' p
                \<longrightarrow> \<not> no_valid_items (page_answer env (build_tier1_query query) sort' p')
                    \<and> \<not> quota_exhausted (page_answer env (build_tier1_query query) sort' p')"
  shows "fst (search_repos env query max_results sort' w)
           = Some (slice_to (collected_before env (build_tier1_query query) sort' p) max_results)"
proof -
  let ?q = "build_tier1_query query"
  let ?mp = "max_pages_for max_results"
  have nv: "no_valid_items (page_answer env ?q sort' p)"
    using page rejected by (rule no_valid_items_all_rejected)
  have pre': "\<forall>b \<in> set (batch_starts ?mp). p \<in> set (batch_pages_of ?mp b)
                \<longrightarrow> (\<forall>p' \<in> set [b + 1 ..< p]. \<not> no_valid_items (page_answer env ?q sort' p')
                                             \<and> \<not> quota_exhausted (page_answer env ?q sort' p'))"
    using pre same_batch_pages by blast
  have req': "SearchRequest ?q p \<in> set (requests_sent (snd (search_batches env ?q sort' max_results ?mp
                  (batch_starts ?mp) [] 0 w)))"
    using req by (simp add: search_repos_def Let_def)
  have "fst (search_batches env ?q sort' max_results ?mp (batch_starts ?mp) [] 0 w)
          = Some (slice_to ([] @ concat (map (\<lambda>x. valid_items (page_answer env ?q sort' x))
                                              [0 * batch_size + 1 ..< p])) max_results)"
    using fresh req' nv pre'
    by (rule search_batches_no_valid_items) (simp add: batch_starts_def)
  then show ?thesis
    by (simp add: search_repos_def Let_def collected_before_def)
qed

lemma page_answer_three_pages:
  "page_answer three_pages q srt p =
     (if p = 1 then PageSuccess p [good ''a''] 1 2 3
      else if p = 2 then PageSuccess p [] 1 1 3 else PageSuccess p [good ''d''] 0 1 3)"
  by (simp add: page_answer_def three_pages_def calm_def fetch_page_def good_legitimate
        unlicensed_rejected)

theorem search_repos_stops_at_filtered_page_witness:
  "pages three_pages (build_tier1_query ''x'') ''stars'' 2 = SearchResponse 200 49 [unlicensed ''c''] 3
   \<and> valid_items (page_answer three_pages (build_tier1_query ''x'') ''stars'' 3) = [good ''d'']
   \<and> fst (search_repos three_pages ''x'' 500 ''stars'' world0) = Some [good ''a'']"
proof -
  let ?q = "build_tier1_query ''x''"
  have fresh: "SearchRequest ?q 2 \<notin> set (requests_sent world0)"
    by (simp add: world0_def)
  have req: "SearchRequest ?q 2
      \<in> set (requests_sent (snd (search_repos three_pages ''x'' 500 ''stars'' world0)))"
    by (simp add: search_eval upt_conv_Cons three_pages_def calm_def world0_def)
  have page: "pages three_pages ?q ''stars'' 2 = SearchResponse 200 49 [unlicensed ''c''] 3"
    by (simp add: three_pages_def calm_def)
  have rejected: "\<forall>item \<in> set [unlicensed ''c'']. rejected (unicode_db three_pages) item"
    by (simp add: rejected_def unlicensed_rejected)
  have pre: "\<forall>p'. p' < 2 \<and> same_batch p' 2
                \<longrightarrow> \<not> no_valid_items (page_answer three_pages ?q ''stars'' p')
                    \<and> \<not> quota_exhausted (page_answer three_pages ?q ''stars'' p')"
    by (auto simp add: page_answer_three_pages same_batch_def)
  have before: "collected_before three_pages ?q ''stars'' 2 = [good ''a'']"
    by (simp add: collected_before_def page_answer_three_pages upt_conv_Cons)
  show ?thesis
    using search_repos_stops_at_filtered_page [OF fresh req page rejected pre] before page
    by (simp add: page_answer_three_pages slice_to_def)
qed

text \<open>
  Claim C10 as stated fails: below, page 2 is fetched and all its items are rejected, yet
  page 1 of the same batch reported quota exhaustion, and the results are looked at in page
  order: the search returns \<open>None\<close>, not the items collected before page 2.
\<close>

theorem search_repos_filtered_page_counterexample:
  "SearchRequest (build_tier1_query ''x'') 2
     \<in> set (requests_sent (snd (search_repos exhausted_then_filtered ''x'' 500 ''stars'' world0)))
   \<and> pages exhausted_then_filtered (build_tier1_query ''x'') ''stars'' 2
       = SearchResponse 200 49 [unlicensed ''c''] 3
   \<and> rejected (unicode_db exhausted_then_filtered) (unlicensed ''c'')
   \<and> no_valid_items (page_answer exhausted_then_filtered (build_tier1_query ''x'') ''stars'' 2)
   \<and> fst (search_repos exhausted_then_filtered ''x'' 500 ''stars'' world0) = None"
proof -
  have search: "search_repos exhausted_then_filtered ''x'' 500 ''stars'' world0
      = (None, world0\<lparr>rate_limit_remaining := 48,
           requests_sent := map (SearchRequest (build_tier1_query ''x'')) [1, 2, 3, 4, 5]\<rparr>)"
    by (simp add: search_eval upt_conv_Cons exhausted_then_filtered_def calm_def world0_def)
  have page: "pages exhausted_then_filtered (build_tier1_query ''x'') ''stars'' 2
       = SearchResponse 200 49 [unlicensed ''c''] 3"
    by (simp add: exhausted_then_filtered_def calm_def)
  have rej: "rejected (unicode_db exhausted_then_filtered) (unlicensed ''c'')"
    by (simp add: rejected_def unlicensed_rejected)
  have nv: "no_valid_items (page_answer exhausted_then_filtered (build_tier1_query ''x'') ''stars'' 2)"
    using page rej by (simp add: no_valid_items_all_rejected)
  show ?thesis using search page rej nv by simp
qed

section \<open>Failing writes\<close>

lemma calm_search: "search_repos (calm\<lparr>state_write := sw, data_write := dw\<rparr>) query 500 srt world0
   = (Some [], world0\<lparr>rate_limit_remaining := 50,
        requests_sent := map (SearchRequest (build_tier1_query query)) [1, 2, 3, 4, 5]\<rparr>)"
  by (simp add: search_eval upt_conv_Cons calm_def world0_def)

text \<open>
  Claim C8 as stated fails for the state file: \<open>save_state\<close> catches the exception of
  its write, so \<open>fetch_top_repos\<close> returns \<open>True\<close> and the run goes on with a state file it
  could not write.
\<close>

theorem persistence_failure_counterexample:
  "state_write state_write_fails ''top_repos'' \<noteq> Written
   \<and> (case fetch_top_repos state_write_fails 500 world0 of
         Inl raised \<Rightarrow> False
       | Inr (done, w') \<Rightarrow> done \<and> state_file w' = Garbled \<and> is_task_complete ''top_repos'' w')"
proof -
  have fresh: "\<not> is_task_complete ''top_repos'' world0"
    by (simp add: is_task_complete_def world0_def default_state_def)
  have env: "state_write_fails = calm\<lparr>state_write := (\<lambda>t. DumpFailed), data_write := (\<lambda>t. Written)\<rparr>"
    by (simp add: state_write_fails_def calm_def)
  have step: "fetch_top_repos state_write_fails 500 world0
      = complete_task state_write_fails ''top_repos''
          (world0\<lparr>rate_limit_remaining := 50,
             requests_sent := map (SearchRequest (build_tier1_query ''help-wanted-issues:>5'')) [1, 2, 3, 4, 5],
             all_repos := all_repos world0\<rparr>)"
    unfolding env by (simp add: fetch_top_repos_def calm_search fresh)
  show ?thesis
    unfolding step
    by (simp add: is_task_complete_def complete_task_def
          mark_task_complete_def save_state_def write_file_def save_current_data_def
          world0_def default_state_def state_write_fails_def calm_def Let_def)
qed

text \<open>
  Claim C8, as amended. At the end of a task, a failed write of the data file raises out of
  the task whenever there is an entity to write, and nothing in \<open>main\<close> catches it. A
  failed write of the state file never does: whenever the data file is written (or there is
  nothing to write), the task returns \<open>True\<close> with the task marked complete in memory,
  whatever became of the state file.
\<close>

theorem persistence_failures:
  "(data_write env task_name \<noteq> Written \<and> all_repos w \<noteq> []
      \<longrightarrow> (\<exists>w'. complete_task env task_name w = Inl (WriteError (data_write env task_name), w')))
   \<and> (data_write env task_name = Written \<or> all_repos w = []
      \<longrightarrow> (\<exists>w'. complete_task env task_name w = Inr (True, w')
               \<and> is_task_complete task_name w'
               \<and> (state_write env task_name = OpenFailed \<longrightarrow> state_file w' = state_file w)
               \<and> (state_write env task_name = DumpFailed \<and> \<not> is_task_complete task_name w
                    \<longrightarrow> state_file w' = Garbled)))"
  by (cases "state_write env task_name")
     (auto simp add: complete_task_def save_current_data_def mark_task_complete_def
        save_state_def is_task_complete_def write_file_def Let_def)

lemma three_pages_search:
  "search_repos (three_pages\<lparr>state_write := sw, data_write := dw\<rparr>) query 1 srt world0
   = (Some [good ''a''], world0\<lparr>rate_limit_remaining := 50,
        requests_sent := [SearchRequest (build_tier1_query query) 1],
        progress_state := default_state\<lparr>filtered_count := 1\<rparr>\<rparr>)"
  by (simp add: search_eval three_pages_def calm_def world0_def default_state_def)

lemma three_pages_writes:
  "three_pages\<lparr>state_write := (\<lambda>t. Written), data_write := (\<lambda>t. Written)\<rparr> = three_pages"
  by (simp add: three_pages_def calm_def)

lemma collected_one_eq:
  "collected_one = world0\<lparr>rate_limit_remaining := 50,
        requests_sent := [SearchRequest (build_tier1_query ''help-wanted-issues:>5'') 1],
        progress_state := default_state\<lparr>filtered_count := 1\<rparr>,
        all_repos := [(''o/a'', (blank_entry (good ''a''))\<lparr>source := [''top_starred'']\<rparr>)]\<rparr>"
proof -
  have "search_repos three_pages ''help-wanted-issues:>5'' 1 ''stars'' world0
     = (Some [good ''a''], world0\<lparr>rate_limit_remaining := 50,
        requests_sent := [SearchRequest (build_tier1_query ''help-wanted-issues:>5'') 1],
        progress_state := default_state\<lparr>filtered_count := 1\<rparr>\<rparr>)"
    using three_pages_search [of "\<lambda>t. Written" "\<lambda>t. Written" "''help-wanted-issues:>5''" "''stars''"]
    by (simp only: three_pages_writes)
  then show ?thesis
    by (simp add: collected_one_def world0_def good_def)
qed

lemma fetch_top_repos_collected_one:
  assumes "pages env = pages three_pages" and "quota env = quota three_pages"
    and "finished_at env = finished_at three_pages"
    and "unicode_db env = unicode_db three_pages"
  shows "fetch_top_repos env 1 world0 = complete_task env ''top_repos'' collected_one"
proof -
  have env: "env = three_pages\<lparr>state_write := state_write env, data_write := data_write env\<rparr>"
    using assms by simp
  have fresh: "\<not> is_task_complete ''top_repos'' world0"
    by (simp add: is_task_complete_def world0_def default_state_def)
  have "search_repos env ''help-wanted-issues:>5'' 1 ''stars'' world0
     = (Some [good ''a''], world0\<lparr>rate_limit_remaining := 50,
        requests_sent := [SearchRequest (build_tier1_query ''help-wanted-issues:>5'') 1],
        progress_state := default_state\<lparr>filtered_count := 1\<rparr>\<rparr>)"
    by (subst env) (rule three_pages_search)
  then show ?thesis
    by (simp add: fetch_top_repos_def is_task_complete_def collected_one_eq world0_def
          default_state_def good_def)
qed

theorem persistence_failures_witness:
  "(\<exists>w'. fetch_top_repos data_write_fails 1 world0 = Inl (WriteError OpenFailed, w'))
   \<and> (\<exists>w'. complete_task state_write_fails ''top_repos'' world0 = Inr (True, w')
          \<and> state_file w' = Garbled)"
proof -
  have task: "fetch_top_repos data_write_fails 1 world0
                = complete_task data_write_fails ''top_repos'' collected_one"
    by (rule fetch_top_repos_collected_one) (simp_all add: data_write_fails_def)
  have a: "data_write data_write_fails ''top_repos'' \<noteq> Written \<and> all_repos collected_one \<noteq> []"
    by (simp add: data_write_fails_def collected_one_eq)
  have b: "data_write state_write_fails ''top_repos'' = Written \<or> all_repos world0 = []"
    by (simp add: world0_def)
  have c: "state_write state_write_fails ''top_repos'' = DumpFailed
             \<and> \<not> is_task_complete ''top_repos'' world0"
    by (simp add: state_write_fails_def is_task_complete_def world0_def default_state_def)
  have d: "data_write data_write_fails ''top_repos'' = OpenFailed"
    by (simp add: data_write_fails_def)
  show ?thesis
    using a b c d task
      persistence_failures [of data_write_fails "''top_repos''" collected_one]
      persistence_failures [of state_write_fails "''top_repos''" world0]
    by auto
qed


section \<open>A crash between the two writes\<close>

lemma crash_before_mark:
  "fresh_process (complete_task_until BeforeMark env task_name w) = fresh_process w"
  by (simp add: complete_task_until_def)

lemma crash_after_save:
  assumes "state_write env task_name = Written" and "data_write env task_name = Written"
    and "all_repos w \<noteq> []" and "\<not> is_task_complete task_name w"
  shows "all_repos (fresh_process (complete_task_until AfterSave env task_name w)) = all_repos w
     \<and> is_task_complete task_name (fresh_process (complete_task_until AfterSave env task_name w))"
  using assms
  by (simp add: complete_task_until_def fresh_process_def new_fetcher_def load_existing_repos_def
        load_state_def save_current_data_def mark_task_complete_def save_state_def write_file_def
        is_task_complete_def Let_def)

text \<open>
  Claim C1 at its failing input. \<open>fetch_top_repos\<close> writes the state file (in
  \<open>mark_task_complete\<close>) before the data file (in \<open>save_current_data\<close>). When the process
  dies between the two, a fresh process finds \<open>top_repos\<close> complete and no entity of it in
  the data it loads, and it skips the task for good.
\<close>

theorem checkpoint_crash_between_writes:
  "fetch_top_repos three_pages 1 world0
     = Inr (True, complete_task_until AfterSave three_pages ''top_repos'' collected_one)
   \<and> map_of (all_repos collected_one) ''o/a'' \<noteq> None
   \<and> is_task_complete ''top_repos''
       (fresh_process (complete_task_until BetweenWrites three_pages ''top_repos'' collected_one))
   \<and> map_of (all_repos
       (fresh_process (complete_task_until BetweenWrites three_pages ''top_repos'' collected_one)))
       ''o/a'' = None
   \<and> fetch_top_repos three_pages 1
       (fresh_process (complete_task_until BetweenWrites three_pages ''top_repos'' collected_one))
     = Inr (True,
        fresh_process (complete_task_until BetweenWrites three_pages ''top_repos'' collected_one))"
proof -
  have task: "fetch_top_repos three_pages 1 world0 = complete_task three_pages ''top_repos'' collected_one"
    by (rule fetch_top_repos_collected_one) simp_all
  have writes: "state_write three_pages ''top_repos'' = Written"
     "data_write three_pages ''top_repos'' = Written"
    by (simp_all add: three_pages_def calm_def)
  have full: "complete_task three_pages ''top_repos'' collected_one
     = Inr (True, complete_task_until AfterSave three_pages ''top_repos'' collected_one)"
    by (simp add: complete_task_def complete_task_until_def writes save_current_data_def
          collected_one_eq Let_def)
  have left: "fresh_process (complete_task_until BetweenWrites three_pages ''top_repos'' collected_one)
     = world0\<lparr>progress_state := default_state\<lparr>filtered_count := 1, completed_tasks := [''top_repos'']\<rparr>,
          state_file := Stored (default_state\<lparr>filtered_count := 1, completed_tasks := [''top_repos'']\<rparr>),
          requests_sent := [SearchRequest (build_tier1_query ''help-wanted-issues:>5'') 1]\<rparr>"
    by (simp add: complete_task_until_def fresh_process_def new_fetcher_def load_existing_repos_def
          load_state_def mark_task_complete_def save_state_def write_file_def writes
          collected_one_eq world0_def default_state_def)
  show ?thesis
    unfolding left task full
    by (simp add: collected_one_eq is_task_complete_def fetch_top_repos_def
          world0_def default_state_def Let_def)
qed


section \<open>Facet flags\<close>

lemma ingest_all_Cons: "ingest_all ((kind, r) # rest) d = ingest_all rest (ingest kind r d)"
  by (simp add: ingest_all_def)

lemma ingest_all_Nil: "ingest_all [] d = d"
  by (simp add: ingest_all_def)

lemma map_of_ingest_other:
  "k \<noteq> full_name r \<Longrightarrow> map_of (ingest kind r d) k = map_of d k"
  by (cases kind) (simp_all add: update_conv' Let_def split: option.splits)

lemma is_underrated_ingest:
  "stored_flag is_underrated (ingest kind r d) k =
     (if kind = Underrated \<and> full_name r = k then underrated_rule r
      else stored_flag is_underrated d k)"
  by (cases kind)
     (auto simp add: stored_flag_def update_conv' flag_def blank_entry_def Let_def
           split: option.splits)

lemma is_gsoc_ingest:
  "stored_flag is_gsoc (ingest kind r d) k =
     (stored_flag is_gsoc d k \<or> (kind = Gsoc \<and> full_name r = k))"
  by (cases kind)
     (auto simp add: stored_flag_def update_conv' flag_def blank_entry_def Let_def
           split: option.splits)

lemma is_hacktoberfest_ingest:
  "stored_flag is_hacktoberfest (ingest kind r d) k =
     (stored_flag is_hacktoberfest d k \<or> (kind = Hacktoberfest \<and> full_name r = k))"
  by (cases kind)
     (auto simp add: stored_flag_def update_conv' flag_def blank_entry_def Let_def
           split: option.splits)

lemma has_good_first_issues_ingest:
  "stored_flag has_good_first_issues (ingest kind r d) k =
     (stored_flag has_good_first_issues d k \<or> (kind = GoodFirstIssue \<and> full_name r = k))"
  by (cases kind)
     (auto simp add: stored_flag_def update_conv' flag_def blank_entry_def Let_def
           split: option.splits)

lemma is_gsoc_ingest_all:
  "stored_flag is_gsoc (ingest_all ingestions d) k =
     (stored_flag is_gsoc d k \<or> (\<exists>r. (Gsoc, r) \<in> set ingestions \<and> full_name r = k))"
proof (induction ingestions arbitrary: d)
  case Nil
  show ?case by (simp add: ingest_all_Nil)
next
  case (Cons x rest)
  obtain kind r where x: "x = (kind, r)" by (cases x)
  show ?case
    unfolding x ingest_all_Cons Cons.IH is_gsoc_ingest by auto
qed

lemma is_hacktoberfest_ingest_all:
  "stored_flag is_hacktoberfest (ingest_all ingestions d) k =
     (stored_flag is_hacktoberfest d k
      \<or> (\<exists>r. (Hacktoberfest, r) \<in> set ingestions \<and> full_name r = k))"
proof (induction ingestions arbitrary: d)
  case Nil
  show ?case by (simp add: ingest_all_Nil)
next
  case (Cons x rest)
  obtain kind r where x: "x = (kind, r)" by (cases x)
  show ?case
    unfolding x ingest_all_Cons Cons.IH is_hacktoberfest_ingest by auto
qed

lemma has_good_first_issues_ingest_all:
  "stored_flag has_good_first_issues (ingest_all ingestions d) k =
     (stored_flag has_good_first_issues d k
      \<or> (\<exists>r. (GoodFirstIssue, r) \<in> set ingestions \<and> full_name r = k))"
proof (induction ingestions arbitrary: d)
  case Nil
  show ?case by (simp add: ingest_all_Nil)
next
  case (Cons x rest)
  obtain kind r where x: "x = (kind, r)" by (cases x)
  show ?case
    unfolding x ingest_all_Cons Cons.IH has_good_first_issues_ingest by auto
qed

lemma is_underrated_ingest_all:
  "stored_flag is_underrated (ingest_all ingestions d) k =
     (case last_underrated k ingestions of
        None \<Rightarrow> stored_flag is_underrated d k
      | Some r \<Rightarrow> underrated_rule r)"
proof (induction ingestions arbitrary: d)
  case Nil
  show ?case by (simp add: ingest_all_Nil)
next
  case (Cons x rest)
  obtain kind r where x: "x = (kind, r)" by (cases x)
  show ?case
    unfolding x ingest_all_Cons Cons.IH is_underrated_ingest
    by (auto split: option.splits)
qed

text \<open>
  Claim C4, as amended. After any sequence of ingestions, \<open>is_gsoc\<close>, \<open>is_hacktoberfest\<close>
  and \<open>has_good_first_issues\<close> of an entity are the disjunction of what was stored before and
  of what the ingestions derive: each is true as soon as one ingestion of the entity came
  from its task. \<open>is_underrated\<close> is what the last ingestion of the entity by the underrated
  task derived, and what was stored before when there is none, so the ingestions of the
  other tasks leave it as it is. Ingesting an entity under a task other than underrated and
  then under underrated, with the rule holding, gives the two tags in that order, the flag
  true and the first payload.
\<close>

theorem facet_flags_after_ingestions:
  "stored_flag is_gsoc (ingest_all ingestions d) k =
     (stored_flag is_gsoc d k \<or> (\<exists>r. (Gsoc, r) \<in> set ingestions \<and> full_name r = k))
   \<and> stored_flag is_hacktoberfest (ingest_all ingestions d) k =
     (stored_flag is_hacktoberfest d k
      \<or> (\<exists>r. (Hacktoberfest, r) \<in> set ingestions \<and> full_name r = k))
   \<and> stored_flag has_good_first_issues (ingest_all ingestions d) k =
     (stored_flag has_good_first_issues d k
      \<or> (\<exists>r. (GoodFirstIssue, r) \<in> set ingestions \<and> full_name r = k))
   \<and> stored_flag is_underrated (ingest_all ingestions d) k =
     (case last_underrated k ingestions of
        None \<Rightarrow> stored_flag is_underrated d k
      | Some r \<Rightarrow> underrated_rule r)
   \<and> (full_name r2 = full_name r1 \<and> underrated_rule r2 \<and> kind \<noteq> Underrated
        \<longrightarrow> (\<exists>e. map_of (ingest_all [(kind, r1), (Underrated, r2)] []) (full_name r1) = Some e
               \<and> source e = [task_tag kind, ''underrated''] \<and> is_underrated e = Some True
               \<and> raw_data e = r1))"
proof -
  have scenario: "\<exists>e. map_of (ingest_all [(kind, r1), (Underrated, r2)] []) (full_name r1) = Some e
               \<and> source e = [task_tag kind, ''underrated''] \<and> is_underrated e = Some True
               \<and> raw_data e = r1"
    if "full_name r2 = full_name r1" and "underrated_rule r2" and "kind \<noteq> Underrated"
    using that
    by (cases kind)
       (simp_all add: ingest_all_def update_conv' blank_entry_def append_new_def Let_def)
  show ?thesis
    using scenario
    by (simp only: is_gsoc_ingest_all is_hacktoberfest_ingest_all has_good_first_issues_ingest_all
          is_underrated_ingest_all) blast
qed

lemma underrated_hot_cold: "underrated_rule hot" "\<not> underrated_rule cold" "full_name cold = full_name hot"
  by (simp_all add: underrated_rule_def hot_def cold_def good_def)

theorem facet_flags_after_ingestions_witness:
  "stored_flag is_gsoc (ingest_all [(Gsoc, hot), (TopStarred, cold)] []) (full_name hot)
   \<and> \<not> stored_flag is_underrated (ingest_all [(Underrated, hot), (Underrated, cold)] []) (full_name hot)
   \<and> (\<exists>e. map_of (ingest_all [(Gsoc, cold), (Underrated, hot)] []) (full_name cold) = Some e
               \<and> source e = [task_tag Gsoc, ''underrated''] \<and> is_underrated e = Some True
               \<and> raw_data e = cold)"
proof -
  have a: "(Gsoc, hot) \<in> set [(Gsoc, hot), (TopStarred, cold)]"
    by simp
  have b: "last_underrated (full_name hot) [(Underrated, hot), (Underrated, cold)] = Some cold"
    by (simp add: underrated_hot_cold)
  have c: "full_name hot = full_name cold \<and> underrated_rule hot \<and> Gsoc \<noteq> Underrated"
    by (simp add: underrated_hot_cold)
  note first = facet_flags_after_ingestions
    [of "[(Gsoc, hot), (TopStarred, cold)]" "[]" "full_name hot" hot cold Gsoc]
  note second = facet_flags_after_ingestions
    [of "[(Underrated, hot), (Underrated, cold)]" "[]" "full_name hot" hot cold Gsoc]
  have g: "stored_flag is_gsoc (ingest_all [(Gsoc, hot), (TopStarred, cold)] []) (full_name hot)"
    using first [THEN conjunct1] a by blast
  have u: "\<not> stored_flag is_underrated (ingest_all [(Underrated, hot), (Underrated, cold)] [])
               (full_name hot)"
    using second [THEN conjunct2, THEN conjunct2, THEN conjunct2, THEN conjunct1] b
      underrated_hot_cold(2)
    by simp
  have s: "\<exists>e. map_of (ingest_all [(Gsoc, cold), (Underrated, hot)] []) (full_name cold) = Some e
               \<and> source e = [task_tag Gsoc, ''underrated''] \<and> is_underrated e = Some True
               \<and> raw_data e = cold"
    using first [THEN conjunct2, THEN conjunct2, THEN conjunct2, THEN conjunct2] c
    by (rule mp)
  show ?thesis using g u s by (intro conjI)
qed

text \<open>
  Claim C4 as stated fails for \<open>is_underrated\<close>: the underrated task overwrites the flag, so
  an entity that one ingestion found underrated reads false after a later ingestion by the
  same task finds it not.
\<close>

theorem facet_flags_or_counterexample:
  "underrated_rule hot \<and> full_name cold = full_name hot
   \<and> map_option (\<lambda>e. flag (is_underrated e))
        (map_of (ingest_all [(Underrated, hot), (Underrated, cold)] []) (full_name hot)) = Some False"
  by (simp add: underrated_hot_cold ingest_all_def update_conv' flag_def blank_entry_def
        append_new_def Let_def)


end
